theory Spec2Isabelle
  imports Main "HOL-Library.Word"
begin

section \<open>Data model of \<open>ClientSession\<close> (client_session.cc)\<close>

text \<open>
  Bytes are 8-bit words. Multi-byte integers are copied from the buffer with \<open>memcpy\<close>;
  the host is taken to be little-endian, as the stream format is. The value of a
  32-bit field is kept as a natural number below \<open>2 ^ 32\<close> and read as a signed
  \<open>int32_t\<close> by \<open>to_int32\<close>.
\<close>

type_synonym u8 = "8 word"

definition le16 :: "u8 list \<Rightarrow> nat \<Rightarrow> nat" where
  "le16 buf i = unat (buf ! i) + 256 * unat (buf ! (i + 1))"

definition le32 :: "u8 list \<Rightarrow> nat \<Rightarrow> nat" where
  "le32 buf i = unat (buf ! i) + 256 * unat (buf ! (i + 1))
     + 65536 * unat (buf ! (i + 2)) + 16777216 * unat (buf ! (i + 3))"

definition to_int32 :: "nat \<Rightarrow> int" where
  "to_int32 v = (if v mod 2 ^ 32 < 2 ^ 31 then int (v mod 2 ^ 32)
                 else int (v mod 2 ^ 32) - 2 ^ 32)"

text \<open>\<open>int32_t\<close> addition as the hardware does it (two's complement wrap-around).\<close>

definition add_int32 :: "int \<Rightarrow> int \<Rightarrow> int" where
  "add_int32 a b = (let m = (a + b) mod 2 ^ 32 in if m < 2 ^ 31 then m else m - 2 ^ 32)"

text \<open>
  Reads that the source performs without a preceding bounds check (\<open>operator[]\<close>,
  \<open>memcpy\<close>) are looked up through these functions: \<open>None\<close> means that the span
  is not inside the vector.
\<close>

definition byte_at :: "u8 list \<Rightarrow> nat \<Rightarrow> u8 option" where
  "byte_at buf i = (if i < length buf then Some (buf ! i) else None)"

definition u16_at :: "u8 list \<Rightarrow> nat \<Rightarrow> nat option" where
  "u16_at buf i = (if i + 2 \<le> length buf then Some (le16 buf i) else None)"

definition u32_at :: "u8 list \<Rightarrow> nat \<Rightarrow> nat option" where
  "u32_at buf i = (if i + 4 \<le> length buf then Some (le32 buf i) else None)"

subsection \<open>Exceptions and results\<close>

datatype error =
    StateReadError          \<comment> \<open>\<open>Exception("state read error")\<close>\<close>
  | LengthError             \<comment> \<open>\<open>std::length_error\<close> of the \<open>std::vector\<close> constructor\<close>
  | PreconditionFailed      \<comment> \<open>\<open>BA_PRECONDITION\<close>\<close>
  | AbnormalStepsize        \<comment> \<open>"got abnormally large stepsize; probably a corrupt stream"\<close>
  | InvalidCorrectionData   \<comment> \<open>"Invalid rbd correction data"\<close>
  | UnrecognizedMessage     \<comment> \<open>"got unrecognized message"\<close>
  | CommandError            \<comment> \<open>an exception of one of the other opcode cases\<close>

text \<open>
  A call returns a value and the state it leaves (\<open>Ok\<close>), or throws, leaving the state
  as it was at the \<open>throw\<close> (\<open>Throw\<close>), or reads memory outside the vector it was
  given (\<open>OutOfBounds\<close>): after that the behaviour of the C++ program is undefined and
  the model stops.
\<close>

datatype ('s, 'a) outcome = Ok 'a 's | Throw error 's | OutOfBounds

definition obind ::
  "('s, 'a) outcome \<Rightarrow> ('a \<Rightarrow> 's \<Rightarrow> ('s, 'b) outcome) \<Rightarrow> ('s, 'b) outcome" where
  "obind r f = (case r of Ok a s \<Rightarrow> f a s | Throw e s \<Rightarrow> Throw e s | OutOfBounds \<Rightarrow> OutOfBounds)"

subsection \<open>Collaborators\<close>

text \<open>
  Modelled from the spec: \<open>RigidBody\<close> (ballistica/dynamics/rigid_body.h, not among the
  sources). The spec gives the physics body "full-state extraction/application and a
  smoothing-offset setter", and says that a blended correction "changes the stored
  smoothing offset by exactly (old_position - new_position) componentwise". A body is
  its position (what \<open>dBodyGetPosition\<close> returns), its stored smoothing offset and the
  rest of its state. Applying a full state (\<open>ExtractFull\<close>, an operation of the
  environment below) gives the body a position and the rest of its state; the stored
  smoothing offset is changed through \<open>AddBlendOffset\<close> only. The type \<open>'f\<close>
  stands for the machine floating-point types; its \<open>+\<close> and \<open>-\<close> are the machine
  operations and no law of arithmetic is assumed.
\<close>

record ('f, 'o) rigid_body =
  position :: "'f \<times> 'f \<times> 'f"
  blend_offset :: "'f \<times> 'f \<times> 'f"
  dynamics :: 'o

fun vsub :: "'f::minus \<times> 'f \<times> 'f \<Rightarrow> 'f \<times> 'f \<times> 'f \<Rightarrow> 'f \<times> 'f \<times> 'f" where
  "vsub (x, y, z) (x', y', z') = (x - x', y - y', z - z')"

fun vadd :: "'f::plus \<times> 'f \<times> 'f \<Rightarrow> 'f \<times> 'f \<times> 'f \<Rightarrow> 'f \<times> 'f \<times> 'f" where
  "vadd (x, y, z) (x', y', z') = (x + x', y + y', z + z')"

definition AddBlendOffset ::
  "('f::plus, 'o) rigid_body \<Rightarrow> 'f \<times> 'f \<times> 'f \<Rightarrow> ('f, 'o) rigid_body" where
  "AddBlendOffset b d = b\<lparr>blend_offset := vadd (blend_offset b) d\<rparr>"

text \<open>
  Modelled from the spec: \<open>Node\<close> (ballistica/scene/node, not among the sources). An
  entity "owns zero or more physics bodies addressable by a small local index"
  (\<open>GetRigidBody\<close>) and receives "entity-specific resync data (opaque to the
  interpreter, forwarded to the entity)" (\<open>ApplyResyncData\<close>, an operation of the
  environment below).
\<close>

record ('f, 'o) node =
  GetRigidBody :: "nat \<Rightarrow> ('f, 'o) rigid_body option"
  node_state :: 'o

subsection \<open>The session\<close>

text \<open>
  The members of \<open>ClientSession\<close> that client_session.cc uses. The class declaration
  is not among the sources: the two time counters are integers without a width here,
  \<open>target_base_time\<close> and \<open>consume_rate\<close> are doubles (\<open>'f\<close>),
  \<open>current_cmd_ptr\<close> is the offset of the read pointer from \<open>&current_cmd[0]\<close>,
  \<open>main_menu_calls\<close> counts the calls of
  \<open>g_python->PushObjCall(kLaunchMainMenuSessionCall)\<close>, and \<open>derived_state\<close> is the
  state a derived session keeps for itself.
\<close>

record ('f, 'o) session =
  shutting_down :: bool
  commands_pending :: "u8 list list"
  commands :: "u8 list list"
  base_time_buffered :: int
  base_time :: int
  target_base_time :: 'f
  consume_rate :: 'f
  current_cmd :: "u8 list"
  current_cmd_ptr :: nat
  nodes :: "('f, 'o) node option list"
  scenes :: "'o option list"
  textures :: "'o option list"
  models :: "'o option list"
  sounds :: "'o option list"
  collide_models :: "'o option list"
  materials :: "'o option list"
  main_menu_calls :: nat
  derived_state :: 'o

text \<open>
  What the file takes from elsewhere: the opcode and message-kind constants (enum
  \<open>SessionCommand\<close> and the \<open>BA_MESSAGE_SESSION_*\<close> macros), the operations of the
  collaborators, the floating-point operations of \<open>Update\<close>, the virtual hooks of the
  class, and the opcode cases of \<open>Update\<close> other than the step, the correction and
  the end of file.
\<close>

record ('f, 'o) env =
  kBaseTimeStep :: u8
  kDynamicsCorrection :: u8
  kEndOfFile :: u8
  MESSAGE_SESSION_RESET :: u8
  MESSAGE_SESSION_COMMANDS :: u8
  MESSAGE_SESSION_DYNAMICS_CORRECTION :: u8
  ExtractFull :: "('f \<times> 'f \<times> 'f) \<times> 'o \<Rightarrow> u8 list \<Rightarrow> (('f \<times> 'f \<times> 'f) \<times> 'o) \<times> nat"
  ApplyResyncData :: "('f, 'o) node \<Rightarrow> u8 list \<Rightarrow> ('f, 'o) node"
  GetActualTimeAdvance :: "int \<Rightarrow> int"
  advance_target :: "'f \<Rightarrow> int \<Rightarrow> 'f \<Rightarrow> 'f"
  time_before :: "int \<Rightarrow> 'f \<Rightarrow> bool"
  zero_time :: 'f
  FetchMessages :: "('f, 'o) session \<Rightarrow> (('f, 'o) session, unit) outcome"
  OnCommandBufferUnderrun :: "('f, 'o) session \<Rightarrow> ('f, 'o) session"
  OnBaseTimeStepAdded :: "nat \<Rightarrow> 'o \<Rightarrow> 'o"
  other_command :: "u8 \<Rightarrow> ('f, 'o) session \<Rightarrow> (('f, 'o) session, unit) outcome"

section \<open>The binary cursor\<close>

text \<open>
  \<open>ReadByte\<close> and \<open>ReadInt32\<close>: the comparison of the read pointer with
  \<open>&current_cmd[0] + size - n\<close> is a comparison of offsets, which can be negative.
  An empty command has no element \<open>current_cmd[0]\<close> to take the address of: with
  storage left from an earlier command the comparison throws, without storage the
  limit wraps around and the null pointer is read. The behaviour is undefined and the
  model stops there.
\<close>

definition ReadByte :: "('f, 'o) session \<Rightarrow> (('f, 'o) session, u8) outcome" where
  "ReadByte s =
     (if current_cmd s = [] then OutOfBounds
      else if int (current_cmd_ptr s) > int (length (current_cmd s)) - 1
      then Throw StateReadError s
      else Ok (current_cmd s ! current_cmd_ptr s)
              (s\<lparr>current_cmd_ptr := current_cmd_ptr s + 1\<rparr>))"

definition ReadInt32 :: "('f, 'o) session \<Rightarrow> (('f, 'o) session, int) outcome" where
  "ReadInt32 s =
     (if current_cmd s = [] then OutOfBounds
      else if int (current_cmd_ptr s) > int (length (current_cmd s)) - 4
      then Throw StateReadError s
      else Ok (to_int32 (le32 (current_cmd s) (current_cmd_ptr s)))
              (s\<lparr>current_cmd_ptr := current_cmd_ptr s + 4\<rparr>))"

text \<open>
  \<open>ReadString\<close>. The length is an \<open>int32_t\<close>. The vector of \<open>size + 1\<close> chars is
  made before the second check: a negative \<open>size + 1\<close> is a huge \<open>size_t\<close> and the
  constructor throws \<open>std::length_error\<close>. The second check subtracts the signed
  length from the end pointer, so a negative length moves the limit past the end.
  \<open>memcpy\<close> then reads \<open>static_cast<size_t>(size)\<close> bytes at the read pointer:
  for a negative length that is at least \<open>2 ^ 63\<close> bytes (\<open>2 ^ 31\<close> where
  \<open>size_t\<close> has 32 bits), more than any vector holds. The vector is zero-filled and
  one char longer than the copy, and the result is the C string at its start: the bytes
  up to the first zero.
\<close>

definition c_str :: "u8 list \<Rightarrow> u8 list" where
  "c_str bytes = takeWhile (\<lambda>b. b \<noteq> 0) bytes"

definition ReadString :: "('f, 'o) session \<Rightarrow> (('f, 'o) session, u8 list) outcome" where
  "ReadString s =
     (if current_cmd s = [] then OutOfBounds
      else if int (current_cmd_ptr s) > int (length (current_cmd s)) - 4
      then Throw StateReadError s
      else
        let size = to_int32 (le32 (current_cmd s) (current_cmd_ptr s));
            s1 = s\<lparr>current_cmd_ptr := current_cmd_ptr s + 4\<rparr>
        in if add_int32 size 1 < 0 then Throw LengthError s1
           else if int (current_cmd_ptr s1) > int (length (current_cmd s1)) - size
           then Throw StateReadError s1
           else if size < 0 then OutOfBounds
           else Ok (c_str (take (nat size) (drop (current_cmd_ptr s1) (current_cmd s1))))
                   (s1\<lparr>current_cmd_ptr := current_cmd_ptr s1 + nat size\<rparr>))"

text \<open>
  The constructor: \<open>ClearSessionObjs()\<close> after the default member initialisers. The
  initial doubles and the derived state are given by the caller.
\<close>

definition new_session :: "'f \<Rightarrow> 'f \<Rightarrow> 'o \<Rightarrow> ('f, 'o) session" where
  "new_session t0 rate d =
     \<lparr>shutting_down = False, commands_pending = [], commands = [],
      base_time_buffered = 0, base_time = 0, target_base_time = t0, consume_rate = rate,
      current_cmd = [], current_cmd_ptr = 0, nodes = [], scenes = [], textures = [],
      models = [], sounds = [], collide_models = [], materials = [],
      main_menu_calls = 0, derived_state = d\<rparr>"

section \<open>Session life cycle\<close>

definition ClearSessionObjs :: "('f, 'o) session \<Rightarrow> ('f, 'o) session" where
  "ClearSessionObjs s =
     s\<lparr>scenes := [], nodes := [], textures := [], models := [], sounds := [],
       collide_models := [], materials := [], commands_pending := [], commands := [],
       base_time_buffered := 0\<rparr>"

text \<open>\<open>Reset\<close> calls \<open>OnReset\<close> (its \<open>assert\<close> is compiled out of release builds).\<close>

definition OnReset :: "('f, 'o) env \<Rightarrow> bool \<Rightarrow> ('f, 'o) session \<Rightarrow> ('f, 'o) session" where
  "OnReset env rewind s = (ClearSessionObjs s)\<lparr>target_base_time := zero_time env, base_time := 0\<rparr>"

definition Reset :: "('f, 'o) env \<Rightarrow> bool \<Rightarrow> ('f, 'o) session \<Rightarrow> ('f, 'o) session" where
  "Reset env rewind s = OnReset env rewind s"

definition End :: "('f, 'o) session \<Rightarrow> ('f, 'o) session" where
  "End s = (if shutting_down s then s
            else s\<lparr>shutting_down := True, main_menu_calls := main_menu_calls s + 1\<rparr>)"

text \<open>\<open>Error\<close> logs the description and ends the session.\<close>

definition Error :: "('f, 'o) session \<Rightarrow> ('f, 'o) session" where
  "Error s = End s"

section \<open>Queueing commands\<close>

text \<open>
  \<open>AddCommand\<close>. The command goes on the pending list. For a step command,
  \<open>command[1]\<close> is read without a check of the command's size, added to the
  buffered time and passed to the hook, and the pending list is appended to the ready
  list and cleared.
\<close>

definition AddCommand ::
  "('f, 'o) env \<Rightarrow> u8 list \<Rightarrow> ('f, 'o) session \<Rightarrow> (('f, 'o) session, unit) outcome" where
  "AddCommand env command s =
     (let s1 = s\<lparr>commands_pending := commands_pending s @ [command]\<rparr>
      in if command \<noteq> [] then
           if command ! 0 = kBaseTimeStep env then
             (case byte_at command 1 of
                None \<Rightarrow> OutOfBounds
              | Some step \<Rightarrow>
                  Ok () (s1\<lparr>base_time_buffered := base_time_buffered s1 + uint step,
                            derived_state := OnBaseTimeStepAdded env (unat step) (derived_state s1),
                            commands := commands s1 @ commands_pending s1,
                            commands_pending := []\<rparr>))
           else Ok () s1
         else Ok () s1)"

text \<open>A sequence of calls of \<open>AddCommand\<close>, one per command, in order.\<close>

fun AddCommands ::
  "('f, 'o) env \<Rightarrow> u8 list list \<Rightarrow> ('f, 'o) session \<Rightarrow> (('f, 'o) session, unit) outcome" where
  "AddCommands env [] s = Ok () s"
| "AddCommands env (c # cs) s = obind (AddCommand env c s) (\<lambda>_ s'. AddCommands env cs s')"

definition is_step :: "('f, 'o) env \<Rightarrow> u8 list \<Rightarrow> bool" where
  "is_step env command = (command \<noteq> [] \<and> command ! 0 = kBaseTimeStep env)"

section \<open>The command interpreter\<close>

subsection \<open>Step advance\<close>

text \<open>
  Modelled from the spec: \<open>BA_PRECONDITION\<close> (a macro, not among the sources) throws
  when its condition is false: "an operand that fails a bound/consistency check fails
  with a decode error".
\<close>

definition exec_BaseTimeStep :: "('f, 'o) session \<Rightarrow> (('f, 'o) session, unit) outcome" where
  "exec_BaseTimeStep s =
     obind (ReadInt32 s) (\<lambda>stepsize s1.
       if \<not> stepsize > 0 then Throw PreconditionFailed s1
       else if stepsize > 10000 then Throw AbnormalStepsize s1
       else
         let s2 = s1\<lparr>base_time_buffered := base_time_buffered s1 - stepsize\<rparr>
         in if \<not> base_time_buffered s2 \<ge> 0 then Throw PreconditionFailed s2
            else Ok () (s2\<lparr>base_time := base_time s2 + stepsize\<rparr>))"

subsection \<open>Dynamics correction\<close>

text \<open>
  \<open>Node* n = (node_id < nodes_.size()) ? nodes_[node_id].get() : nullptr\<close>: the
  pointer is the index of an occupied slot, or null.
\<close>

definition node_at :: "('f, 'o) session \<Rightarrow> nat \<Rightarrow> ('f, 'o) node option" where
  "node_at s i = (if i < length (nodes s) then nodes s ! i else None)"

definition lookup_node :: "('f, 'o) session \<Rightarrow> nat \<Rightarrow> nat option" where
  "lookup_node s node_id = (case node_at s node_id of None \<Rightarrow> None | Some _ \<Rightarrow> Some node_id)"

text \<open>The bodies and nodes are objects changed in place; here the table is updated.\<close>

definition put_node ::
  "nat \<Rightarrow> ('f, 'o) node \<Rightarrow> ('f, 'o) session \<Rightarrow> ('f, 'o) session" where
  "put_node i nd s = s\<lparr>nodes := (nodes s)[i := Some nd]\<rparr>"

definition put_body ::
  "nat \<Rightarrow> nat \<Rightarrow> ('f, 'o) rigid_body \<Rightarrow> ('f, 'o) session \<Rightarrow> ('f, 'o) session" where
  "put_body i bodyid b s =
     (case node_at s i of
        None \<Rightarrow> s
      | Some nd \<Rightarrow> put_node i (nd\<lparr>GetRigidBody := (GetRigidBody nd)(bodyid \<mapsto> b)\<rparr>) s)"

definition find_body ::
  "('f, 'o) session \<Rightarrow> nat option \<Rightarrow> nat \<Rightarrow> (nat \<times> ('f, 'o) rigid_body) option" where
  "find_body s n bodyid =
     (case n of
        None \<Rightarrow> None
      | Some i \<Rightarrow>
          (case node_at s i of
             None \<Rightarrow> None
           | Some nd \<Rightarrow> (case GetRigidBody nd bodyid of None \<Rightarrow> None | Some b \<Rightarrow> Some (i, b))))"

text \<open>
  \<open>b->ExtractFull(&p2)\<close>: the environment's \<open>ExtractFull\<close> is given the
  position and the rest of the body's state and the bytes from \<open>p1\<close> to the end of
  the command, and returns the new position and state and the number of bytes it
  consumed (\<open>p2 - p1\<close>).
\<close>

definition extract_full ::
  "('f, 'o) env \<Rightarrow> ('f, 'o) rigid_body \<Rightarrow> u8 list \<Rightarrow> ('f, 'o) rigid_body \<times> nat" where
  "extract_full env b avail =
     (let r = ExtractFull env (position b, dynamics b) avail
      in (b\<lparr>position := fst (fst r), dynamics := snd (fst r)\<rparr>, snd r))"

text \<open>
  The block \<open>if (b) { ... }\<close>. Consuming more bytes than the command has left is a
  read past its end. The pointer \<open>p\<close> points into the body, so \<open>p[0]\<close> after
  \<open>ExtractFull\<close> is the new position.
\<close>

definition correct_body ::
  "('f::{plus,minus}, 'o) env \<Rightarrow> bool \<Rightarrow> nat \<Rightarrow> nat \<Rightarrow> ('f, 'o) rigid_body \<Rightarrow> u8 list \<Rightarrow> nat \<Rightarrow>
   ('f, 'o) session \<Rightarrow> (('f, 'o) session, unit) outcome" where
  "correct_body env blend i bodyid b avail body_data_len s =
     (let old = position b;
          b' = fst (extract_full env b avail);
          used = snd (extract_full env b avail)
      in if used > length avail then OutOfBounds
         else
           let s1 = put_body i bodyid b' s
           in if used \<noteq> body_data_len then Throw InvalidCorrectionData s1
              else if blend
              then Ok () (put_body i bodyid (AddBlendOffset b' (vsub old (position b'))) s1)
              else Ok () s1)"

text \<open>One pass of the loop over the bodies of a node entry; the result is \<open>offset\<close>.\<close>

definition correction_body ::
  "('f::{plus,minus}, 'o) env \<Rightarrow> bool \<Rightarrow> nat option \<Rightarrow> nat \<Rightarrow> ('f, 'o) session \<Rightarrow>
   (('f, 'o) session, nat) outcome" where
  "correction_body env blend n offset s =
     (case byte_at (current_cmd s) offset of
        None \<Rightarrow> OutOfBounds
      | Some bodyid \<Rightarrow>
          (case u16_at (current_cmd s) (offset + 1) of
             None \<Rightarrow> OutOfBounds
           | Some body_data_len \<Rightarrow>
               obind (case find_body s n (unat bodyid) of
                        None \<Rightarrow> Ok () s
                      | Some (i, b) \<Rightarrow>
                          correct_body env blend i (unat bodyid) b
                            (drop (offset + 3) (current_cmd s)) body_data_len s)
                 (\<lambda>_ s'. if offset + 3 + body_data_len > length (current_cmd s')
                          then Throw InvalidCorrectionData s'
                          else Ok (offset + 3 + body_data_len) s')))"

fun correction_bodies ::
  "('f::{plus,minus}, 'o) env \<Rightarrow> bool \<Rightarrow> nat option \<Rightarrow> nat \<Rightarrow> nat \<Rightarrow> ('f, 'o) session \<Rightarrow>
   (('f, 'o) session, nat) outcome" where
  "correction_bodies env blend n 0 offset s = Ok offset s"
| "correction_bodies env blend n (Suc j) offset s =
     obind (correction_body env blend n offset s)
       (\<lambda>offset' s'. correction_bodies env blend n j offset' s')"

definition apply_resync ::
  "('f, 'o) env \<Rightarrow> nat option \<Rightarrow> u8 list \<Rightarrow> ('f, 'o) session \<Rightarrow> ('f, 'o) session" where
  "apply_resync env n data s =
     (case n of
        None \<Rightarrow> s
      | Some i \<Rightarrow>
          (case node_at s i of None \<Rightarrow> s | Some nd \<Rightarrow> put_node i (ApplyResyncData env nd data) s))"

text \<open>
  The rest of a node entry after the loop over its bodies: the custom data of the node.
\<close>

definition correction_custom ::
  "('f, 'o) env \<Rightarrow> nat option \<Rightarrow> nat \<Rightarrow> ('f, 'o) session \<Rightarrow> (('f, 'o) session, nat) outcome" where
  "correction_custom env n offset1 s1 =
     (if offset1 > length (current_cmd s1) then Throw InvalidCorrectionData s1
      else
        (case u16_at (current_cmd s1) offset1 of
           None \<Rightarrow> OutOfBounds
         | Some custom_data_len \<Rightarrow>
             obind
               (if custom_data_len \<noteq> 0 then
                  if offset1 + 2 + custom_data_len > length (current_cmd s1)
                  then OutOfBounds
                  else Ok (offset1 + 2 + custom_data_len)
                         (apply_resync env n
                            (take custom_data_len (drop (offset1 + 2) (current_cmd s1))) s1)
                else Ok (offset1 + 2) s1)
               (\<lambda>offset2 s2.
                  if offset2 > length (current_cmd s2)
                  then Throw InvalidCorrectionData s2
                  else Ok offset2 s2)))"

text \<open>One pass of the loop over the node entries.\<close>

definition correction_node ::
  "('f::{plus,minus}, 'o) env \<Rightarrow> bool \<Rightarrow> nat \<Rightarrow> ('f, 'o) session \<Rightarrow>
   (('f, 'o) session, nat) outcome" where
  "correction_node env blend offset s =
     (case u32_at (current_cmd s) offset of
        None \<Rightarrow> OutOfBounds
      | Some node_id \<Rightarrow>
          (case byte_at (current_cmd s) (offset + 4) of
             None \<Rightarrow> OutOfBounds
           | Some body_count \<Rightarrow>
               let n = lookup_node s node_id
               in obind (correction_bodies env blend n (unat body_count) (offset + 5) s)
                    (correction_custom env n)))"

fun correction_nodes ::
  "('f::{plus,minus}, 'o) env \<Rightarrow> bool \<Rightarrow> nat \<Rightarrow> nat \<Rightarrow> ('f, 'o) session \<Rightarrow>
   (('f, 'o) session, nat) outcome" where
  "correction_nodes env blend 0 offset s = Ok offset s"
| "correction_nodes env blend (Suc i) offset s =
     obind (correction_node env blend offset s)
       (\<lambda>offset' s'. correction_nodes env blend i offset' s')"

text \<open>
  The case \<open>kDynamicsCorrection\<close>. \<open>offset\<close> is a \<open>uint32_t\<close>; it stays below
  \<open>2 ^ 32\<close> for every command shorter than \<open>2 ^ 32 - 2 ^ 17\<close> bytes and is a
  natural number here.
\<close>

definition correction_end :: "nat \<Rightarrow> ('f, 'o) session \<Rightarrow> (('f, 'o) session, unit) outcome" where
  "correction_end offset s' =
     (if offset \<noteq> length (current_cmd s') then Throw InvalidCorrectionData s'
      else Ok () (s'\<lparr>current_cmd_ptr := offset\<rparr>))"

definition exec_DynamicsCorrection ::
  "('f::{plus,minus}, 'o) env \<Rightarrow> ('f, 'o) session \<Rightarrow> (('f, 'o) session, unit) outcome" where
  "exec_DynamicsCorrection env s =
     (case byte_at (current_cmd s) 1 of
        None \<Rightarrow> OutOfBounds
      | Some blend \<Rightarrow>
          (case u16_at (current_cmd s) 2 of
             None \<Rightarrow> OutOfBounds
           | Some node_count \<Rightarrow>
               obind (correction_nodes env (blend \<noteq> 0) node_count 4 s) correction_end))"

subsection \<open>Dispatch and the update loop\<close>

text \<open>The opcode byte and the \<open>switch\<close>, for the command \<open>Update\<close> has just fetched.\<close>

definition run_command ::
  "('f::{plus,minus}, 'o) env \<Rightarrow> ('f, 'o) session \<Rightarrow> (('f, 'o) session, unit) outcome" where
  "run_command env s =
     obind (ReadByte s) (\<lambda>cmd s1.
       if cmd = kBaseTimeStep env then exec_BaseTimeStep s1
       else if cmd = kDynamicsCorrection env then exec_DynamicsCorrection env s1
       else if cmd = kEndOfFile env then Ok () (Reset env True s1)
       else other_command env cmd s1)"

definition fetch_command :: "u8 list \<Rightarrow> u8 list list \<Rightarrow> ('f, 'o) session \<Rightarrow> ('f, 'o) session" where
  "fetch_command c rest s = s\<lparr>current_cmd := c, commands := rest, current_cmd_ptr := 0\<rparr>"

text \<open>
  The \<open>while\<close> loop of \<open>Update\<close> (release build). It ends when the base time has
  reached the target, when the ready list is empty, or with the first exception;
  \<open>None\<close> is a loop that does not end.
\<close>

partial_function (option) Update_loop ::
  "('f::{plus,minus}, 'o) env \<Rightarrow> ('f, 'o) session \<Rightarrow> (('f, 'o) session, unit) outcome option" where
  "Update_loop env s =
     (if \<not> time_before env (base_time s) (target_base_time s) then Some (Ok () s)
      else
        (case FetchMessages env s of
           Throw e s' \<Rightarrow> Some (Throw e s')
         | OutOfBounds \<Rightarrow> Some OutOfBounds
         | Ok _ s1 \<Rightarrow>
             (case commands s1 of
                [] \<Rightarrow> Some (Ok () (OnCommandBufferUnderrun env s1))
              | c # rest \<Rightarrow>
                  (case run_command env (fetch_command c rest s1) of
                     Throw e s' \<Rightarrow> Some (Throw e s')
                   | OutOfBounds \<Rightarrow> Some OutOfBounds
                   | Ok _ s2 \<Rightarrow> Update_loop env s2))))"

text \<open>\<open>Update\<close>: the guard, the new target time, the loop, and the \<open>catch\<close>.\<close>

definition Update ::
  "('f::{plus,minus}, 'o) env \<Rightarrow> int \<Rightarrow> ('f, 'o) session \<Rightarrow> (('f, 'o) session, unit) outcome option" where
  "Update env time_advance s =
     (if shutting_down s then Some (Ok () s)
      else
        (case Update_loop env
                (s\<lparr>target_base_time :=
                     advance_target env (target_base_time s)
                       (GetActualTimeAdvance env time_advance) (consume_rate s)\<rparr>) of
           None \<Rightarrow> None
         | Some (Throw e s') \<Rightarrow> Some (Ok () (Error s'))
         | Some r \<Rightarrow> Some r))"

section \<open>Session messages\<close>

text \<open>
  The loop of the case \<open>BA_MESSAGE_SESSION_COMMANDS\<close>. The two bytes of the length
  are copied without a check; the check compares \<open>offset + size\<close> (here \<open>sub_size\<close>) with the size of
  the buffer; the payload is copied from \<open>offset + 2\<close>.
\<close>

function split_commands ::
  "('f, 'o) env \<Rightarrow> u8 list \<Rightarrow> nat \<Rightarrow> ('f, 'o) session \<Rightarrow> (('f, 'o) session, unit) outcome" where
  "split_commands env buffer offset s =
     (case u16_at buffer offset of
        None \<Rightarrow> OutOfBounds
      | Some sub_size \<Rightarrow>
          if offset + sub_size > length buffer then Ok () (Error s)
          else if offset + 2 + sub_size > length buffer then OutOfBounds
          else
            (case AddCommand env (take sub_size (drop (offset + 2) buffer)) s of
               OutOfBounds \<Rightarrow> OutOfBounds
             | Throw e s' \<Rightarrow> Throw e s'
             | Ok _ s' \<Rightarrow>
                 if offset + 2 + sub_size = length buffer then Ok () s'
                 else split_commands env buffer (offset + 2 + sub_size) s'))"
  by pat_completeness auto
termination
  by (relation "measure (\<lambda>(env, buffer, offset, s). length buffer - offset)")
    (auto simp: u16_at_def split: if_splits)

declare split_commands.simps [simp del]

definition HandleSessionMessage ::
  "('f, 'o) env \<Rightarrow> u8 list \<Rightarrow> ('f, 'o) session \<Rightarrow> (('f, 'o) session, unit) outcome" where
  "HandleSessionMessage env buffer s =
     (if buffer = [] then Throw PreconditionFailed s
      else if buffer ! 0 = MESSAGE_SESSION_RESET env then Ok () (Reset env False s)
      else if buffer ! 0 = MESSAGE_SESSION_COMMANDS env then split_commands env buffer 1 s
      else if buffer ! 0 = MESSAGE_SESSION_DYNAMICS_CORRECTION env
      then AddCommand env (buffer[0 := kDynamicsCorrection env]) s
      else Throw UnrecognizedMessage s)"

text \<open>
  The envelope as the spec describes it: each sub-record is a 16-bit length followed by
  that many bytes.
\<close>

definition sub_record :: "u8 list \<Rightarrow> u8 list" where
  "sub_record c = [of_nat (length c mod 256), of_nat (length c div 256)] @ c"

definition sub_records :: "u8 list list \<Rightarrow> u8 list" where
  "sub_records cs = concat (map sub_record cs)"

section \<open>Skipping an entry by its declared lengths\<close>

text \<open>
  What it means to skip the entries of a correction command by the lengths they
  declare, written from the packet layout alone (no session, no node table): each body
  entry is a body index, a 16-bit payload length and the payload; a node entry is a
  32-bit node id, a body count, the body entries, a 16-bit custom-data length and the
  custom data. The result is the offset behind the entry, or \<open>None\<close> when a declared
  length leads outside the command.
\<close>

fun skip_bodies :: "u8 list \<Rightarrow> nat \<Rightarrow> nat \<Rightarrow> nat option" where
  "skip_bodies cmd 0 offset = Some offset"
| "skip_bodies cmd (Suc j) offset =
     (case u16_at cmd (offset + 1) of
        None \<Rightarrow> None
      | Some body_data_len \<Rightarrow>
          if offset + 3 + body_data_len > length cmd then None
          else skip_bodies cmd j (offset + 3 + body_data_len))"

definition skip_node_entry :: "u8 list \<Rightarrow> nat \<Rightarrow> nat option" where
  "skip_node_entry cmd offset =
     (case byte_at cmd (offset + 4) of
        None \<Rightarrow> None
      | Some body_count \<Rightarrow>
          (case skip_bodies cmd (unat body_count) (offset + 5) of
             None \<Rightarrow> None
           | Some offset1 \<Rightarrow>
               (case u16_at cmd offset1 of
                  None \<Rightarrow> None
                | Some custom_data_len \<Rightarrow>
                    if offset1 + 2 + custom_data_len > length cmd then None
                    else Some (offset1 + 2 + custom_data_len))))"

section \<open>A sample environment and sample sessions\<close>

text \<open>
  Concrete values at which the theorems below are evaluated. Floats are integers here
  and the opaque state is a list of bytes. The opcode and message-kind numbers are
  sample values (the enum and the macros are not among the sources). The sample
  \<open>ExtractFull\<close> consumes three bytes and takes the position from them, leaving
  the rest of the state as it is; the sample
  \<open>ApplyResyncData\<close> stores the data in the node; the hooks do nothing; the
  remaining opcodes throw.
\<close>

definition env0 :: "(int, u8 list) env" where
  "env0 =
     \<lparr>kBaseTimeStep = 0, kDynamicsCorrection = 49, kEndOfFile = 48,
      MESSAGE_SESSION_RESET = 0, MESSAGE_SESSION_COMMANDS = 1,
      MESSAGE_SESSION_DYNAMICS_CORRECTION = 2,
      ExtractFull = (\<lambda>state bytes.
        (((uint (bytes ! 0), uint (bytes ! 1), uint (bytes ! 2)), snd state), 3)),
      ApplyResyncData = (\<lambda>nd data. nd\<lparr>node_state := data\<rparr>),
      GetActualTimeAdvance = (\<lambda>t. t),
      advance_target = (\<lambda>target t rate. target + t * rate),
      time_before = (\<lambda>t target. t < target),
      zero_time = 0,
      FetchMessages = (\<lambda>s. Ok () s),
      OnCommandBufferUnderrun = (\<lambda>s. s),
      OnBaseTimeStepAdded = (\<lambda>step d. d),
      other_command = (\<lambda>cmd s. Throw CommandError s)\<rparr>"

definition session0 :: "(int, u8 list) session" where
  "session0 = new_session 0 1 []"

text \<open>A node with one rigid body, at index 0, resting at \<open>(5, 6, 7)\<close>.\<close>

definition body0 :: "(int, u8 list) rigid_body" where
  "body0 = \<lparr>position = (5, 6, 7), blend_offset = (0, 0, 0), dynamics = []\<rparr>"

definition node0 :: "(int, u8 list) node" where
  "node0 = \<lparr>GetRigidBody = (\<lambda>bodyid. if bodyid = 0 then Some body0 else None), node_state = []\<rparr>"

definition session_with_node :: "(int, u8 list) session" where
  "session_with_node = session0\<lparr>nodes := [Some node0]\<rparr>"

text \<open>
  An unblended correction for body 1 of node 0, which does not exist, with no payload
  and the custom data \<open>7\<close>.
\<close>

definition no_body_cmd :: "u8 list" where
  "no_body_cmd = [49, 0, 1, 0, 0, 0, 0, 0, 1, 1, 0, 0, 1, 0, 7]"

text \<open>The same correction for node 3, which is outside the node table.\<close>

definition no_node_cmd :: "u8 list" where
  "no_node_cmd = [49, 0, 1, 0, 3, 0, 0, 0, 1, 1, 0, 0, 1, 0, 7]"

text \<open>
  A blended correction with two node entries. The first, at offset 4, is for node 3,
  which is outside the node table: one body entry with the payload \<open>9 9\<close>, and the
  custom data \<open>8\<close>. The second, at offset 17, is for node 0: a body entry at offset
  22 for body 1, which does not exist, with the payload \<open>6\<close>; a body entry at offset
  26 for body 0 with the payload \<open>1 2 3\<close>; and the custom data \<open>7\<close>.
\<close>

definition two_entry_cmd :: "u8 list" where
  "two_entry_cmd =
     [49, 1, 2, 0,
      3, 0, 0, 0, 1, 0, 2, 0, 9, 9, 1, 0, 8,
      0, 0, 0, 0, 2, 1, 1, 0, 6, 0, 3, 0, 1, 2, 3, 1, 0, 7]"

definition two_entry_session :: "(int, u8 list) session" where
  "two_entry_session = fetch_command two_entry_cmd [] session_with_node"

section \<open>Facts about the integer decoding\<close>

lemma to_int32_range: "- (2 ^ 31) \<le> to_int32 v \<and> to_int32 v < 2 ^ 31"
proof -
  have h: "v mod 4294967296 < (4294967296 :: nat)" by simp
  show ?thesis
    apply (simp add: to_int32_def)
    using h by linarith
qed

lemma add_int32_one_neg_iff:
  assumes "- (2 ^ 31) \<le> z" "z < 2 ^ 31"
  shows "add_int32 z 1 < 0 \<longleftrightarrow> z \<le> - 2 \<or> z = 2 ^ 31 - 1"
proof -
  consider "z \<le> - 2" | "- 1 \<le> z \<and> z < 2 ^ 31 - 1" | "z = 2 ^ 31 - 1"
    using assms by fastforce
  then show ?thesis
  proof cases
    case 1
    have "(z + 1) mod 4294967296 = (z + 1 + 4294967296) mod 4294967296"
      by (rule mod_add_self2 [symmetric])
    also have "\<dots> = z + 1 + 4294967296"
      using assms 1 by (intro mod_pos_pos_trivial) simp_all
    finally show ?thesis using assms 1 by (simp add: add_int32_def)
  next
    case 2
    then have "(z + 1) mod 4294967296 = z + 1"
      by (intro mod_pos_pos_trivial) simp_all
    then show ?thesis using 2 by (simp add: add_int32_def)
  next
    case 3
    then show ?thesis by (simp add: add_int32_def)
  qed
qed

lemma unat_u8_less: "unat (b :: u8) < 256"
  using unsigned_less [of b, where ?'a = nat] by simp

lemma le32_less: "le32 buf i < 4294967296"
  using unat_u8_less [of "buf ! i"] unat_u8_less [of "buf ! (i + 1)"]
    unat_u8_less [of "buf ! (i + 2)"] unat_u8_less [of "buf ! (i + 3)"]
  unfolding le32_def by linarith

lemma le32_mod_256: "le32 buf i mod 256 = unat (buf ! i)"
proof -
  let ?k = "unat (buf ! (i + 1)) + 256 * unat (buf ! (i + 2)) + 65536 * unat (buf ! (i + 3))"
  have "le32 buf i = unat (buf ! i) + 256 * ?k"
    by (simp add: le32_def)
  then have "le32 buf i mod 256 = (unat (buf ! i) + 256 * ?k) mod 256"
    by (rule arg_cong)
  also have "\<dots> = unat (buf ! i) mod 256"
    by (rule mod_mult_self2)
  also have "\<dots> = unat (buf ! i)"
    using unat_u8_less [of "buf ! i"] by (rule mod_less)
  finally show ?thesis .
qed

section \<open>The cursor: \<open>ReadString\<close>\<close>

lemma ReadString_Ok_iff:
  "ReadString s = Ok str s' \<longleftrightarrow>
    (current_cmd_ptr s + 4 \<le> length (current_cmd s) \<and>
     (let size = to_int32 (le32 (current_cmd s) (current_cmd_ptr s)) in
      0 \<le> size \<and> size < 2 ^ 31 - 1 \<and>
      current_cmd_ptr s + 4 + nat size \<le> length (current_cmd s) \<and>
      str = c_str (take (nat size) (drop (current_cmd_ptr s + 4) (current_cmd s))) \<and>
      s' = s\<lparr>current_cmd_ptr := current_cmd_ptr s + 4 + nat size\<rparr>))"
  using to_int32_range [of "le32 (current_cmd s) (current_cmd_ptr s)"]
    add_int32_one_neg_iff [of "to_int32 (le32 (current_cmd s) (current_cmd_ptr s))"]
  by (auto simp: ReadString_def Let_def)

text \<open>
  In a command that is not empty, the only length that gets past both checks without
  fitting the buffer is \<open>-1\<close>
  (the bytes \<open>FF FF FF FF\<close>): \<open>size + 1\<close> is \<open>0\<close>, so the vector is made, and the
  limit of the second check is one past the end of the buffer.
\<close>

lemma ReadString_OutOfBounds_iff:
  "ReadString s = OutOfBounds \<longleftrightarrow>
    current_cmd s = [] \<or>
    current_cmd_ptr s + 4 \<le> length (current_cmd s) \<and>
    to_int32 (le32 (current_cmd s) (current_cmd_ptr s)) = - 1"
  using to_int32_range [of "le32 (current_cmd s) (current_cmd_ptr s)"]
    add_int32_one_neg_iff [of "to_int32 (le32 (current_cmd s) (current_cmd_ptr s))"]
  by (auto simp: ReadString_def Let_def)

text \<open>
  C1. The claim: for every buffer and position, \<open>ReadString\<close> fails with a read error
  or reads a length \<open>L\<close> and exactly \<open>L\<close> bytes inside the buffer, the length being
  checked against the rest of the buffer before any byte is copied, for every 32-bit
  length. The code at the command \<open>FF FF FF FF\<close> (length \<open>-1\<close>): both checks pass
  and \<open>memcpy\<close> is asked for \<open>static_cast<size_t>(-1)\<close> bytes, which are not in
  the buffer.
\<close>

theorem ReadString_length_minus_one_reads_out_of_bounds:
  "ReadString (session0\<lparr>current_cmd := [255, 255, 255, 255], current_cmd_ptr := 0\<rparr>)
     = OutOfBounds"
  by (simp add: ReadString_def session0_def new_session_def le32_def to_int32_def
      add_int32_def Let_def)

lemma takeWhile_first_zero:
  "(0::u8) \<in> set xs \<Longrightarrow>
     length (takeWhile (\<lambda>b. b \<noteq> 0) xs) < length xs \<and> xs ! length (takeWhile (\<lambda>b. b \<noteq> 0) xs) = 0"
  by (induction xs) auto

text \<open>
  C10. Whenever \<open>ReadString\<close> returns, the 4-byte length is some \<open>L \<ge> 0\<close>, the
  cursor has advanced by \<open>4 + L\<close>, and the string returned is the \<open>L\<close> payload bytes
  up to their first zero byte: shorter than \<open>L\<close> when the payload holds a zero byte,
  the whole payload otherwise.
\<close>

theorem ReadString_returns_c_string:
  assumes "ReadString s = Ok str s'"
  shows "\<exists>L payload.
           to_int32 (le32 (current_cmd s) (current_cmd_ptr s)) = int L \<and>
           payload = take L (drop (current_cmd_ptr s + 4) (current_cmd s)) \<and>
           length payload = L \<and>
           s' = s\<lparr>current_cmd_ptr := current_cmd_ptr s + 4 + L\<rparr> \<and>
           str = takeWhile (\<lambda>b. b \<noteq> 0) payload \<and>
           (0 \<in> set payload \<longrightarrow> length str < L \<and> payload ! length str = 0) \<and>
           (0 \<notin> set payload \<longrightarrow> str = payload)"
proof -
  let ?z = "to_int32 (le32 (current_cmd s) (current_cmd_ptr s))"
  let ?p = "take (nat ?z) (drop (current_cmd_ptr s + 4) (current_cmd s))"
  from assms have a: "0 \<le> ?z" "current_cmd_ptr s + 4 + nat ?z \<le> length (current_cmd s)"
    "str = c_str ?p" "s' = s\<lparr>current_cmd_ptr := current_cmd_ptr s + 4 + nat ?z\<rparr>"
    by (simp_all add: ReadString_Ok_iff Let_def)
  have len: "length ?p = nat ?z" using a(2) by simp
  have z: "0 \<in> set ?p \<longrightarrow> length str < nat ?z \<and> ?p ! length str = 0"
    unfolding a(3) c_str_def using takeWhile_first_zero [of ?p] unfolding len by blast
  have nz: "0 \<notin> set ?p \<longrightarrow> str = ?p"
    unfolding a(3) c_str_def takeWhile_eq_all_conv by auto
  show ?thesis
  proof (intro exI conjI)
    show "?z = int (nat ?z)" using a(1) by simp
    show "?p = take (nat ?z) (drop (current_cmd_ptr s + 4) (current_cmd s))" by (rule refl)
    show "length ?p = nat ?z" by (rule len)
    show "s' = s\<lparr>current_cmd_ptr := current_cmd_ptr s + 4 + nat ?z\<rparr>" by (rule a(4))
    show "str = takeWhile (\<lambda>b. b \<noteq> 0) ?p" using a(3) by (simp only: c_str_def)
    show "0 \<in> set ?p \<longrightarrow> length str < nat ?z \<and> ?p ! length str = 0" by (rule z)
    show "0 \<notin> set ?p \<longrightarrow> str = ?p" by (rule nz)
  qed
qed

lemma ReadString_sample:
  "ReadString (session0\<lparr>current_cmd := [3, 0, 0, 0, 65, 0, 66]\<rparr>)
     = Ok [65] (session0\<lparr>current_cmd := [3, 0, 0, 0, 65, 0, 66], current_cmd_ptr := 7\<rparr>)"
  by (simp add: ReadString_def session0_def new_session_def le32_def to_int32_def
      add_int32_def c_str_def Let_def)

text \<open>The payload \<open>65 0 66\<close>: the string is \<open>65\<close>, the cursor moves on by 7 bytes.\<close>

theorem ReadString_returns_c_string_witness:
  "ReadString (session0\<lparr>current_cmd := [3, 0, 0, 0, 65, 0, 66]\<rparr>)
     = Ok [65] (session0\<lparr>current_cmd := [3, 0, 0, 0, 65, 0, 66], current_cmd_ptr := 7\<rparr>)
   \<and> (\<exists>L payload.
         to_int32 (le32 [3, 0, 0, 0, 65, 0, 66] 0) = int L \<and>
         payload = take L (drop 4 [3, 0, 0, 0, 65, 0, 66 :: u8]) \<and>
         length payload = L \<and>
         [65] = takeWhile (\<lambda>b. b \<noteq> 0) payload \<and>
         (0 \<in> set payload \<longrightarrow> length [65 :: u8] < L \<and> payload ! 1 = 0))"
  using ReadString_returns_c_string [OF ReadString_sample] ReadString_sample
  by (simp add: session0_def new_session_def)

section \<open>Step advance\<close>

lemma run_command_step:
  assumes "is_step env c"
  shows "run_command env (fetch_command c rest s)
       = exec_BaseTimeStep (fetch_command c rest s\<lparr>current_cmd_ptr := 1\<rparr>)"
  using assms
  by (cases c) (simp_all add: is_step_def run_command_def ReadByte_def fetch_command_def obind_def)

text \<open>
  C2. \<open>Update\<close> has fetched a step-advance command \<open>c\<close>. A command too short for
  the 32-bit step size fails with a read error. Otherwise the step size is decoded; a
  size that is not strictly positive fails (precondition), a size above 10000 fails
  (abnormal step size); otherwise the buffered time is decremented by the step size,
  which fails when the result is negative; otherwise the base time is incremented by
  the step size and nothing else changes but the cursor.
\<close>

theorem BaseTimeStep_executes:
  assumes "is_step env c"
  shows "(length c < 5 \<longrightarrow>
            run_command env (fetch_command c rest s)
              = Throw StateReadError (fetch_command c rest s\<lparr>current_cmd_ptr := 1\<rparr>))
       \<and> (5 \<le> length c \<longrightarrow>
            (let stepsize = to_int32 (le32 c 1);
                 s1 = fetch_command c rest s\<lparr>current_cmd_ptr := 5\<rparr>
             in (stepsize \<le> 0 \<longrightarrow>
                   run_command env (fetch_command c rest s) = Throw PreconditionFailed s1)
              \<and> (10000 < stepsize \<longrightarrow>
                   run_command env (fetch_command c rest s) = Throw AbnormalStepsize s1)
              \<and> (0 < stepsize \<and> stepsize \<le> 10000 \<and> base_time_buffered s - stepsize < 0 \<longrightarrow>
                   run_command env (fetch_command c rest s)
                     = Throw PreconditionFailed
                         (s1\<lparr>base_time_buffered := base_time_buffered s - stepsize\<rparr>))
              \<and> (0 < stepsize \<and> stepsize \<le> 10000 \<and> 0 \<le> base_time_buffered s - stepsize \<longrightarrow>
                   run_command env (fetch_command c rest s)
                     = Ok () (s1\<lparr>base_time_buffered := base_time_buffered s - stepsize,
                                 base_time := base_time s + stepsize\<rparr>))))"
  unfolding run_command_step [OF assms] using assms
  by (auto simp: exec_BaseTimeStep_def ReadInt32_def fetch_command_def obind_def Let_def
      is_step_def)

lemma sample_step_is_step: "is_step env0 [0, 16, 0, 0, 0]"
  by (simp add: is_step_def env0_def)

lemma sample_step_size: "to_int32 (le32 [0, 16, 0, 0, 0] 1) = 16"
  by (simp add: le32_def to_int32_def)

text \<open>A step of 16 with 16 buffered: the buffer is used up and the base time is 16.\<close>

theorem BaseTimeStep_executes_witness:
  "is_step env0 [0, 16, 0, 0, 0] \<and>
   run_command env0 (fetch_command [0, 16, 0, 0, 0] [] (session0\<lparr>base_time_buffered := 16\<rparr>))
     = Ok () (session0\<lparr>current_cmd := [0, 16, 0, 0, 0], current_cmd_ptr := 5,
                       base_time_buffered := 0, base_time := 16\<rparr>)"
  using BaseTimeStep_executes [OF sample_step_is_step, of "[]" "session0\<lparr>base_time_buffered := 16\<rparr>"]
    sample_step_is_step sample_step_size
  by (simp add: fetch_command_def session0_def new_session_def)

lemma run_command_step_Ok:
  assumes "is_step env c" "run_command env (fetch_command c rest u) = Ok () t"
  shows "5 \<le> length c \<and> 0 < to_int32 (le32 c 1) \<and> to_int32 (le32 c 1) \<le> 10000
       \<and> base_time_buffered t = base_time_buffered u - to_int32 (le32 c 1)"
  using assms(2) unfolding run_command_step [OF assms(1)]
  by (auto simp: exec_BaseTimeStep_def ReadInt32_def fetch_command_def obind_def Let_def
      split: if_splits)

lemma low_byte_eq_iff:
  assumes "0 < to_int32 v" "v < 4294967296"
  shows "int (v mod 256) = to_int32 v \<longleftrightarrow> to_int32 v < 256"
proof -
  from assms have v: "to_int32 v = int v"
    by (simp add: to_int32_def split: if_splits)
  show ?thesis
  proof
    assume "int (v mod 256) = to_int32 v"
    moreover have "v mod 256 < 256" by simp
    ultimately show "to_int32 v < 256" by linarith
  next
    assume "to_int32 v < 256"
    then have "v < 256" using v by linarith
    then show "int (v mod 256) = to_int32 v" using v by simp
  qed
qed

text \<open>
  C8. Enqueueing a step-advance command \<open>c\<close> adds the byte \<open>c[1]\<close> to the buffered
  time; that byte is the low byte of the little-endian step size. Executing \<open>c\<close>
  takes the whole 32-bit step size off the buffered time. The two amounts are equal
  exactly when the step size is below 256.
\<close>

theorem step_tally_is_low_byte:
  assumes "is_step env c"
    and "AddCommand env c s = Ok () s'"
    and "run_command env (fetch_command c rest u) = Ok () t"
  shows "base_time_buffered s' - base_time_buffered s = uint (c ! 1)
       \<and> uint (c ! 1) = int (le32 c 1 mod 256)
       \<and> base_time_buffered u - base_time_buffered t = to_int32 (le32 c 1)
       \<and> (base_time_buffered s' - base_time_buffered s
            = base_time_buffered u - base_time_buffered t
          \<longleftrightarrow> to_int32 (le32 c 1) < 256)"
proof -
  from run_command_step_Ok [OF assms(1,3)]
  have len: "5 \<le> length c" and pos: "0 < to_int32 (le32 c 1)"
    and dec: "base_time_buffered u - base_time_buffered t = to_int32 (le32 c 1)"
    by simp_all
  from assms(1,2) len have inc: "base_time_buffered s' - base_time_buffered s = uint (c ! 1)"
    by (auto simp: AddCommand_def is_step_def byte_at_def Let_def)
  have low: "uint (c ! 1) = int (le32 c 1 mod 256)"
    by (simp only: le32_mod_256 uint_nat)
  have "int (le32 c 1 mod 256) = to_int32 (le32 c 1) \<longleftrightarrow> to_int32 (le32 c 1) < 256"
    using pos le32_less by (rule low_byte_eq_iff)
  with inc low dec show ?thesis by simp
qed

lemma sample_big_step_is_step: "is_step env0 [0, 44, 1, 0, 0]"
  by (simp add: is_step_def env0_def)

lemma sample_big_step_added:
  "AddCommand env0 [0, 44, 1, 0, 0] session0
     = Ok () (session0\<lparr>base_time_buffered := 44, commands := [[0, 44, 1, 0, 0]]\<rparr>)"
  by (simp add: AddCommand_def env0_def session0_def new_session_def byte_at_def)

lemma sample_big_step_run:
  "run_command env0 (fetch_command [0, 44, 1, 0, 0] [] (session0\<lparr>base_time_buffered := 300\<rparr>))
     = Ok () (session0\<lparr>current_cmd := [0, 44, 1, 0, 0], current_cmd_ptr := 5,
                       base_time_buffered := 0, base_time := 300\<rparr>)"
  by (simp add: run_command_def ReadByte_def exec_BaseTimeStep_def ReadInt32_def
      fetch_command_def obind_def env0_def session0_def new_session_def le32_def to_int32_def)

text \<open>A step of 300 (bytes \<open>44 1 0 0\<close>): 44 is added on arrival, 300 taken on execution.\<close>

theorem step_tally_is_low_byte_witness:
  "is_step env0 [0, 44, 1, 0, 0]
   \<and> AddCommand env0 [0, 44, 1, 0, 0] session0
       = Ok () (session0\<lparr>base_time_buffered := 44, commands := [[0, 44, 1, 0, 0]]\<rparr>)
   \<and> run_command env0 (fetch_command [0, 44, 1, 0, 0] [] (session0\<lparr>base_time_buffered := 300\<rparr>))
       = Ok () (session0\<lparr>current_cmd := [0, 44, 1, 0, 0], current_cmd_ptr := 5,
                         base_time_buffered := 0, base_time := 300\<rparr>)
   \<and> uint ([0, 44, 1, 0, 0 :: u8] ! 1) = 44
   \<and> to_int32 (le32 [0, 44, 1, 0, 0] 1) = 300
   \<and> \<not> to_int32 (le32 [0, 44, 1, 0, 0] 1) < 256"
  using step_tally_is_low_byte [OF sample_big_step_is_step sample_big_step_added sample_big_step_run]
    sample_big_step_is_step sample_big_step_added sample_big_step_run
  by (simp add: le32_def to_int32_def)

section \<open>Queueing: whole steps only\<close>

lemma AddCommand_non_step:
  assumes "\<not> is_step env c"
  shows "AddCommand env c s = Ok () (s\<lparr>commands_pending := commands_pending s @ [c]\<rparr>)"
  using assms by (auto simp: AddCommand_def is_step_def Let_def)

lemma AddCommand_step:
  assumes "is_step env c" "2 \<le> length c"
  shows "AddCommand env c s
       = Ok () (s\<lparr>commands_pending := [],
                  commands := commands s @ commands_pending s @ [c],
                  base_time_buffered := base_time_buffered s + uint (c ! 1),
                  derived_state := OnBaseTimeStepAdded env (unat (c ! 1)) (derived_state s)\<rparr>)"
  using assms by (auto simp: AddCommand_def is_step_def byte_at_def Let_def)

lemma AddCommands_whole_steps:
  assumes "\<forall>c\<in>set cs. is_step env c \<longrightarrow> 2 \<le> length c"
    and "\<forall>c\<in>set (commands_pending s). \<not> is_step env c"
  shows "\<exists>s'. AddCommands env cs s = Ok () s'
           \<and> commands s' @ commands_pending s' = commands s @ commands_pending s @ cs
           \<and> (\<forall>c\<in>set (commands_pending s'). \<not> is_step env c)
           \<and> (commands s' = commands s
              \<or> (\<exists>pre st. commands s' = commands s @ pre @ [st] \<and> is_step env st))"
  using assms
proof (induction cs arbitrary: s)
  case Nil
  then show ?case by simp
next
  case (Cons c cs)
  show ?case
  proof (cases "is_step env c")
    case True
    let ?s1 = "s\<lparr>commands_pending := [],
                  commands := commands s @ commands_pending s @ [c],
                  base_time_buffered := base_time_buffered s + uint (c ! 1),
                  derived_state := OnBaseTimeStepAdded env (unat (c ! 1)) (derived_state s)\<rparr>"
    from True Cons.prems(1) have add: "AddCommand env c s = Ok () ?s1"
      by (intro AddCommand_step) simp_all
    from Cons.prems(1) have "\<forall>c\<in>set cs. is_step env c \<longrightarrow> 2 \<le> length c" by simp
    moreover have "\<forall>c\<in>set (commands_pending ?s1). \<not> is_step env c" by simp
    ultimately obtain s' where s': "AddCommands env cs ?s1 = Ok () s'"
      "commands s' @ commands_pending s' = commands ?s1 @ commands_pending ?s1 @ cs"
      "\<forall>c\<in>set (commands_pending s'). \<not> is_step env c"
      "commands s' = commands ?s1
         \<or> (\<exists>pre st. commands s' = commands ?s1 @ pre @ [st] \<and> is_step env st)"
      using Cons.IH [of ?s1] by blast
    have run: "AddCommands env (c # cs) s = Ok () s'"
      using add s'(1) by (simp add: obind_def)
    have cat: "commands s' @ commands_pending s' = commands s @ commands_pending s @ c # cs"
      using s'(2) by simp
    have grown: "\<exists>pre st. commands s' = commands s @ pre @ [st] \<and> is_step env st"
    proof (rule disjE [OF s'(4)])
      assume "commands s' = commands ?s1"
      then have "commands s' = commands s @ commands_pending s @ [c]" by simp
      with True show ?thesis by blast
    next
      assume "\<exists>pre st. commands s' = commands ?s1 @ pre @ [st] \<and> is_step env st"
      then obtain pre st where "commands s' = commands ?s1 @ pre @ [st]" "is_step env st"
        by blast
      then have "commands s' = commands s @ (commands_pending s @ [c] @ pre) @ [st]" by simp
      with \<open>is_step env st\<close> show ?thesis by blast
    qed
    from run cat s'(3) grown show ?thesis by blast
  next
    case False
    let ?s1 = "s\<lparr>commands_pending := commands_pending s @ [c]\<rparr>"
    from False have add: "AddCommand env c s = Ok () ?s1"
      by (rule AddCommand_non_step)
    from Cons.prems(1) have "\<forall>c\<in>set cs. is_step env c \<longrightarrow> 2 \<le> length c" by simp
    moreover from False Cons.prems(2)
    have "\<forall>c\<in>set (commands_pending ?s1). \<not> is_step env c" by simp
    ultimately obtain s' where s': "AddCommands env cs ?s1 = Ok () s'"
      "commands s' @ commands_pending s' = commands ?s1 @ commands_pending ?s1 @ cs"
      "\<forall>c\<in>set (commands_pending s'). \<not> is_step env c"
      "commands s' = commands ?s1
         \<or> (\<exists>pre st. commands s' = commands ?s1 @ pre @ [st] \<and> is_step env st)"
      using Cons.IH [of ?s1] by blast
    have run: "AddCommands env (c # cs) s = Ok () s'"
      using add s'(1) by (simp add: obind_def)
    have cat: "commands s' @ commands_pending s' = commands s @ commands_pending s @ c # cs"
      using s'(2) by simp
    have grown: "commands s' = commands s
         \<or> (\<exists>pre st. commands s' = commands s @ pre @ [st] \<and> is_step env st)"
      using s'(4) by simp
    from run cat s'(3) grown show ?thesis by blast
  qed
qed

text \<open>
  What \<open>AddCommand\<close> does right. A non-step command goes on the pending list and
  the ready list is unchanged; a step command of two bytes or more moves the whole
  pending list and itself to the end of the ready list, at once. So after any sequence
  of commands in which every step command has two bytes or more, starting with no step
  command pending: no command is lost or reordered, no step command is pending, and
  the ready list is the old one or the old one extended up to a step command.
\<close>

lemma whole_steps_when_step_commands_have_two_bytes:
  assumes "\<forall>c\<in>set cs. is_step env c \<longrightarrow> 2 \<le> length c"
    and "\<forall>c\<in>set (commands_pending s). \<not> is_step env c"
  shows "(\<forall>c. \<not> is_step env c \<longrightarrow>
            AddCommand env c s = Ok () (s\<lparr>commands_pending := commands_pending s @ [c]\<rparr>))
       \<and> (\<forall>c. is_step env c \<and> 2 \<le> length c \<longrightarrow>
            (\<exists>s'. AddCommand env c s = Ok () s'
                \<and> commands s' = commands s @ commands_pending s @ [c]
                \<and> commands_pending s' = []))
       \<and> (\<exists>s'. AddCommands env cs s = Ok () s'
             \<and> commands s' @ commands_pending s' = commands s @ commands_pending s @ cs
             \<and> (\<forall>c\<in>set (commands_pending s'). \<not> is_step env c)
             \<and> (commands s' = commands s
                \<or> (\<exists>pre st. commands s' = commands s @ pre @ [st] \<and> is_step env st)))"
proof (intro conjI allI impI)
  fix c assume "\<not> is_step env c"
  then show "AddCommand env c s = Ok () (s\<lparr>commands_pending := commands_pending s @ [c]\<rparr>)"
    by (rule AddCommand_non_step)
next
  fix c assume "is_step env c \<and> 2 \<le> length c"
  then show "\<exists>s'. AddCommand env c s = Ok () s'
                \<and> commands s' = commands s @ commands_pending s @ [c]
                \<and> commands_pending s' = []"
    by (simp add: AddCommand_step)
next
  show "\<exists>s'. AddCommands env cs s = Ok () s'
             \<and> commands s' @ commands_pending s' = commands s @ commands_pending s @ cs
             \<and> (\<forall>c\<in>set (commands_pending s'). \<not> is_step env c)
             \<and> (commands s' = commands s
                \<or> (\<exists>pre st. commands s' = commands s @ pre @ [st] \<and> is_step env st))"
    using assms by (rule AddCommands_whole_steps)
qed

lemma sample_sequence_added:
  "AddCommands env0 [[5, 1], [0, 16, 0, 0, 0], [7]] session0
     = Ok () (session0\<lparr>commands := [[5, 1], [0, 16, 0, 0, 0]], commands_pending := [[7]],
                       base_time_buffered := 16\<rparr>)"
  by (simp add: AddCommand_def obind_def byte_at_def env0_def session0_def new_session_def)

lemma AddCommand_one_byte_step:
  assumes "is_step env c" "length c = 1"
  shows "AddCommand env c s = OutOfBounds"
  using assms by (auto simp: AddCommand_def is_step_def byte_at_def Let_def)

text \<open>
  C3. The claim: for every sequence of commands added through \<open>AddCommand\<close>, a
  non-step command waits on the pending list and a step command moves all pending
  commands to the ready list at once, so that the ready list grows in whole steps
  only. The code does this for every step command of two bytes or more. Of a step
  command it tests only that it is not empty before it reads \<open>command[1]\<close>: for the
  step command that is the opcode byte alone the read is past the end of the vector,
  before anything is moved. Such a command arrives in the envelope
  \<open>[COMMANDS, 1, 0, kBaseTimeStep]\<close>.
\<close>

theorem one_byte_step_command_is_read_past_its_end:
  "AddCommand env0 [0] session0 = OutOfBounds
   \<and> HandleSessionMessage env0 [1, 1, 0, 0] session0 = OutOfBounds"
  by (simp add: HandleSessionMessage_def split_commands.simps AddCommand_def byte_at_def
      u16_at_def le16_def env0_def)

section \<open>Shutting down\<close>

text \<open>
  C6, as stated, fails in its last part: \<open>AddCommand\<close> does not look at
  \<open>shutting_down\<close>. On a session that has ended, a command is put on the pending
  list, and a step command reaches the ready list and raises the buffered time.
\<close>

theorem AddCommand_after_End_still_enqueues:
  "shutting_down (End session0)
   \<and> commands_pending (End session0) = [] \<and> commands (End session0) = []
   \<and> AddCommand env0 [7] (End session0)
       = Ok () (End session0\<lparr>commands_pending := [[7]]\<rparr>)
   \<and> AddCommand env0 [0, 16, 0, 0, 0] (End session0)
       = Ok () (End session0\<lparr>commands := [[0, 16, 0, 0, 0]], base_time_buffered := 16\<rparr>)"
  by (simp add: AddCommand_def End_def byte_at_def env0_def session0_def new_session_def)

lemma AddCommand_keeps_shutting_down:
  assumes "AddCommand env c s = Ok () s'"
  shows "shutting_down s' = shutting_down s
       \<and> commands s' @ commands_pending s' = commands s @ commands_pending s @ [c]"
  using assms
  by (auto simp: AddCommand_def Let_def split: if_splits option.splits)

text \<open>
  C6, amended. \<open>End\<close> sets the flag and asks for the main menu once; a second
  \<open>End\<close> changes nothing. On a session that is shutting down, \<open>End\<close> changes
  nothing, \<open>Update\<close> returns at once with the session as it was, and \<open>AddCommand\<close>
  queues the command as it does on a running session (the command is never executed,
  since \<open>Update\<close> no longer runs).
\<close>

theorem shutting_down_once_and_Update_is_noop:
  "End (End s) = End s
   \<and> shutting_down (End s)
   \<and> (shutting_down s \<longrightarrow>
        End s = s
      \<and> Update env time_advance s = Some (Ok () s)
      \<and> (\<forall>c s'. AddCommand env c s = Ok () s' \<longrightarrow>
            shutting_down s'
          \<and> commands s' @ commands_pending s' = commands s @ commands_pending s @ [c]))"
proof (intro conjI impI allI)
  show "End (End s) = End s" by (simp add: End_def)
  show "shutting_down (End s)" by (simp add: End_def)
next
  assume "shutting_down s"
  then show "End s = s" by (simp add: End_def)
next
  assume "shutting_down s"
  then show "Update env time_advance s = Some (Ok () s)" by (simp add: Update_def)
next
  fix c s' assume sd: "shutting_down s" and "AddCommand env c s = Ok () s'"
  from AddCommand_keeps_shutting_down [OF this(2)] sd
  show "shutting_down s'"
    and "commands s' @ commands_pending s' = commands s @ commands_pending s @ [c]"
    by simp_all
qed

lemma ended_session_shutting_down: "shutting_down (End session0)"
  by (simp add: End_def)

lemma ended_session_add:
  "AddCommand env0 [7] (End session0) = Ok () (End session0\<lparr>commands_pending := [[7]]\<rparr>)"
  by (simp add: AddCommand_def End_def env0_def session0_def new_session_def)

lemma ended_session_calls: "main_menu_calls (End (End session0)) = 1"
  by (simp add: End_def session0_def new_session_def)

theorem shutting_down_once_and_Update_is_noop_witness:
  "shutting_down (End session0)
   \<and> main_menu_calls (End (End session0)) = 1
   \<and> Update env0 16 (End session0) = Some (Ok () (End session0))
   \<and> AddCommand env0 [7] (End session0) = Ok () (End session0\<lparr>commands_pending := [[7]]\<rparr>)
   \<and> shutting_down (End session0\<lparr>commands_pending := [[7]]\<rparr>)"
proof -
  note t = shutting_down_once_and_Update_is_noop [of "End session0" env0 16]
  from t ended_session_shutting_down
  have "Update env0 16 (End session0) = Some (Ok () (End session0))" by blast
  moreover from t ended_session_shutting_down ended_session_add
  have "shutting_down (End session0\<lparr>commands_pending := [[7]]\<rparr>)" by blast
  ultimately show ?thesis
    using ended_session_shutting_down ended_session_add ended_session_calls by blast
qed

section \<open>Dynamics correction\<close>

lemmas sample_defs =
  env0_def session0_def new_session_def session_with_node_def node0_def body0_def
  no_body_cmd_def no_node_cmd_def two_entry_cmd_def two_entry_session_def

text \<open>
  C4. The claim: while a correction command is decoded every read lies inside the
  command, and a corrupt command raises an error without a read past its end. The code
  reads first and compares \<open>offset\<close> with the size afterwards. A correction message
  of one byte is queued as the one-byte command \<open>[kDynamicsCorrection]\<close>, and
  executing it reads \<open>current_cmd[1]\<close>; a command that ends after a node count of 1
  has its node id read at offsets 4 to 7.
\<close>

theorem DynamicsCorrection_reads_past_the_command:
  "HandleSessionMessage env0 [2] session0 = Ok () (session0\<lparr>commands_pending := [[49]]\<rparr>)
   \<and> run_command env0 (fetch_command [49] [] session0) = OutOfBounds
   \<and> run_command env0 (fetch_command [49, 0, 1, 0] [] session0) = OutOfBounds"
  by (simp add: HandleSessionMessage_def AddCommand_def run_command_def ReadByte_def
      exec_DynamicsCorrection_def correction_node_def fetch_command_def obind_def
      byte_at_def u16_at_def u32_at_def le16_def env0_def session0_def new_session_def)

subsection \<open>The loops, taken apart\<close>

lemma obind_Ok [simp]: "obind (Ok a s) f = f a s"
  by (simp add: obind_def)

lemma obind_assoc: "obind (obind r f) g = obind r (\<lambda>a s. obind (f a s) g)"
  by (cases r) (simp_all add: obind_def)

lemma correction_bodies_add:
  "correction_bodies env blend n (j + m) offset s
     = obind (correction_bodies env blend n j offset s) (correction_bodies env blend n m)"
proof (induction j arbitrary: offset s)
  case 0
  show ?case by simp
next
  case (Suc j)
  have "correction_bodies env blend n (j + m)
      = (\<lambda>a s. obind (correction_bodies env blend n j a s) (correction_bodies env blend n m))"
    by (intro ext) (rule Suc.IH)
  then show ?case by (simp add: obind_assoc)
qed

lemma correction_nodes_add:
  "correction_nodes env blend (i + k) offset s
     = obind (correction_nodes env blend i offset s) (correction_nodes env blend k)"
proof (induction i arbitrary: offset s)
  case 0
  show ?case by simp
next
  case (Suc i)
  have "correction_nodes env blend (i + k)
      = (\<lambda>a s. obind (correction_nodes env blend i a s) (correction_nodes env blend k))"
    by (intro ext) (rule Suc.IH)
  then show ?case by (simp add: obind_assoc)
qed

text \<open>The command being decoded stays as it is.\<close>

lemma current_cmd_put_node [simp]: "current_cmd (put_node i nd s) = current_cmd s"
  by (simp add: put_node_def)

lemma current_cmd_put_body [simp]: "current_cmd (put_body i bodyid b s) = current_cmd s"
  by (simp add: put_body_def split: option.splits)

lemma current_cmd_apply_resync [simp]: "current_cmd (apply_resync env n data s) = current_cmd s"
  by (simp add: apply_resync_def split: option.splits)

lemma correction_body_cmd:
  assumes "correction_body env blend n offset s = Ok offset' s'"
  shows "current_cmd s' = current_cmd s"
  using assms
  by (auto simp: correction_body_def correct_body_def obind_def Let_def
      split: option.splits if_splits outcome.splits prod.splits)

lemma correction_bodies_cmd:
  assumes "correction_bodies env blend n j offset s = Ok offset' s'"
  shows "current_cmd s' = current_cmd s"
  using assms
proof (induction j arbitrary: offset s)
  case 0
  then show ?case by simp
next
  case (Suc j)
  then show ?case
    by (auto simp: obind_def split: outcome.splits dest: correction_body_cmd)
qed

lemma correction_custom_cmd:
  assumes "correction_custom env n offset s = Ok offset' s'"
  shows "current_cmd s' = current_cmd s"
  using assms
  by (auto simp: correction_custom_def obind_def split: option.splits if_splits)

lemma correction_node_cmd:
  assumes "correction_node env blend offset s = Ok offset' s'"
  shows "current_cmd s' = current_cmd s"
proof -
  from assms obtain n j offset1 s1 where
    "correction_bodies env blend n j (offset + 5) s = Ok offset1 s1"
    "correction_custom env n offset1 s1 = Ok offset' s'"
    by (auto simp: correction_node_def obind_def Let_def split: option.splits outcome.splits)
  then show ?thesis
    using correction_bodies_cmd correction_custom_cmd by metis
qed

lemma correction_nodes_cmd:
  assumes "correction_nodes env blend i offset s = Ok offset' s'"
  shows "current_cmd s' = current_cmd s"
  using assms
proof (induction i arbitrary: offset s)
  case 0
  then show ?case by simp
next
  case (Suc i)
  then show ?case
    by (auto simp: obind_def split: outcome.splits dest: correction_node_cmd)
qed

subsection \<open>A body that exists\<close>

lemma find_body_SomeD:
  assumes "find_body s n bodyid = Some (i, b)"
  shows "n = Some i \<and> (\<exists>nd. node_at s i = Some nd \<and> GetRigidBody nd bodyid = Some b)"
  using assms by (auto simp: find_body_def split: option.splits)

lemma lookup_node_SomeD:
  assumes "lookup_node s node_id = Some i"
  shows "i = node_id"
  using assms by (auto simp: lookup_node_def split: option.splits)

lemma find_body_put_body:
  assumes "node_at s i = Some nd"
  shows "find_body (put_body i bodyid b' s) (Some i) bodyid = Some (i, b')"
  using assms
  by (auto simp: find_body_def put_body_def put_node_def node_at_def split: if_splits)

lemma put_body_twice:
  assumes "node_at s i = Some nd"
  shows "find_body (put_body i bodyid b2 (put_body i bodyid b1 s)) (Some i) bodyid = Some (i, b2)"
proof -
  from assms have "\<exists>nd'. node_at (put_body i bodyid b1 s) i = Some nd'"
    by (auto simp: put_body_def put_node_def node_at_def split: if_splits)
  then show ?thesis by (auto intro: find_body_put_body)
qed

text \<open>
  One pass of the body loop for a body that exists and whose state extraction consumes
  the declared number of bytes, inside the command.
\<close>

lemma correction_body_existing:
  assumes body: "find_body s n (unat bodyid) = Some (i, b)"
    and rd: "byte_at (current_cmd s) offset = Some bodyid"
      "u16_at (current_cmd s) (offset + 1) = Some body_data_len"
    and ex: "ExtractFull env (position b, dynamics b) (drop (offset + 3) (current_cmd s))
               = ((p', d'), body_data_len)"
    and fit: "offset + 3 + body_data_len \<le> length (current_cmd s)"
  shows "\<exists>s'. correction_body env blend n offset s = Ok (offset + 3 + body_data_len) s'
           \<and> find_body s' n (unat bodyid)
               = Some (i, b\<lparr>position := p', dynamics := d',
                            blend_offset :=
                              (if blend then vadd (blend_offset b) (vsub (position b) p')
                               else blend_offset b)\<rparr>)"
proof -
  from find_body_SomeD [OF body] obtain nd where n: "n = Some i"
    and nd: "node_at s i = Some nd" by blast
  let ?b1 = "b\<lparr>position := p', dynamics := d'\<rparr>"
  let ?b2 = "AddBlendOffset ?b1 (vsub (position b) (position ?b1))"
  let ?s1 = "put_body i (unat bodyid) ?b1 s"
  let ?s2 = "put_body i (unat bodyid) ?b2 ?s1"
  have xf: "extract_full env b (drop (offset + 3) (current_cmd s)) = (?b1, body_data_len)"
    by (simp add: extract_full_def ex)
  have cb: "correct_body env blend i (unat bodyid) b (drop (offset + 3) (current_cmd s))
              body_data_len s
            = (if blend then Ok () ?s2 else Ok () ?s1)"
    using fit by (simp add: correct_body_def xf Let_def)
  have step: "correction_body env blend n offset s
            = (if blend then Ok (offset + 3 + body_data_len) ?s2
               else Ok (offset + 3 + body_data_len) ?s1)"
    using fit rd body by (simp add: correction_body_def cb obind_def)
  have f1: "find_body ?s1 n (unat bodyid) = Some (i, ?b1)"
    unfolding n using nd by (rule find_body_put_body)
  have f2: "find_body ?s2 n (unat bodyid) = Some (i, ?b2)"
    unfolding n using nd by (rule put_body_twice)
  show ?thesis
    using step f1 f2 by (cases b) (simp add: AddBlendOffset_def)
qed


lemma two_entry_flag:
  "byte_at (current_cmd two_entry_session) 1 = Some 1"
  "u16_at (current_cmd two_entry_session) 2 = Some (1 + Suc 0)"
  by (simp_all add: byte_at_def u16_at_def le16_def fetch_command_def sample_defs)

lemma two_entry_first_entry:
  "correction_nodes env0 ((1 :: u8) \<noteq> 0) 1 4 two_entry_session = Ok 17 two_entry_session"
  by (simp add: correction_node_def correction_body_def correction_custom_def obind_def
      byte_at_def u16_at_def u32_at_def le16_def le32_def lookup_node_def node_at_def
      find_body_def apply_resync_def fetch_command_def sample_defs)

lemma two_entry_second_entry:
  "u32_at (current_cmd two_entry_session) 17 = Some 0"
  "byte_at (current_cmd two_entry_session) (17 + 4) = Some 2"
  "unat (2 :: u8) = 1 + Suc 0"
  by (simp_all add: byte_at_def u32_at_def le32_def fetch_command_def sample_defs)

lemma two_entry_first_body:
  "correction_bodies env0 ((1 :: u8) \<noteq> 0) (lookup_node two_entry_session 0) 1 (17 + 5)
     two_entry_session = Ok 26 two_entry_session"
  by (simp add: correction_body_def obind_def byte_at_def u16_at_def le16_def
      lookup_node_def node_at_def find_body_def fetch_command_def sample_defs)

lemma two_entry_second_body:
  "byte_at (current_cmd two_entry_session) 26 = Some 0"
  "u16_at (current_cmd two_entry_session) (26 + 1) = Some 3"
  by (simp_all add: byte_at_def u16_at_def le16_def fetch_command_def sample_defs)

lemma two_entry_body_found:
  "find_body two_entry_session (lookup_node two_entry_session 0) (unat (0 :: u8))
     = Some (0, body0)"
  by (simp add: lookup_node_def node_at_def find_body_def fetch_command_def sample_defs)

lemma two_entry_extract:
  "ExtractFull env0 (position body0, dynamics body0)
     (drop (26 + 3) (current_cmd two_entry_session)) = (((1, 2, 3), []), 3)"
  by (simp add: fetch_command_def sample_defs)

lemma two_entry_fits: "26 + 3 + 3 \<le> length (current_cmd two_entry_session)"
  by (simp add: fetch_command_def sample_defs)


lemma correction_nodes_unfold:
  "correction_nodes env blend 0 = Ok"
  "correction_nodes env blend (Suc i)
     = (\<lambda>offset s. obind (correction_node env blend offset s) (correction_nodes env blend i))"
  by (intro ext, simp)+

lemma correction_bodies_unfold:
  "correction_bodies env blend n 0 = Ok"
  "correction_bodies env blend n (Suc j)
     = (\<lambda>offset s. obind (correction_body env blend n offset s)
                      (correction_bodies env blend n j))"
  by (intro ext, simp)+

lemma correction_nodes_two:
  "correction_nodes env blend 2 offset s
     = obind (correction_node env blend offset s)
         (\<lambda>offset' s'. obind (correction_node env blend offset' s') Ok)"
  by (simp add: numeral_2_eq_2 correction_nodes_unfold)

lemma correction_bodies_two:
  "correction_bodies env blend n 2 offset s
     = obind (correction_body env blend n offset s)
         (\<lambda>offset' s'. obind (correction_body env blend n offset' s') Ok)"
  by (simp add: numeral_2_eq_2 correction_bodies_unfold)

text \<open>The whole sample command, from the opcode byte to the test of the consumed length.\<close>

lemma two_entry_run:
  "\<exists>s'. run_command env0 two_entry_session = Ok () s'
      \<and> current_cmd_ptr s' = 35
      \<and> find_body s' (Some 0) 0
          = Some (0, \<lparr>position = (1, 2, 3), blend_offset = (4, 4, 4), dynamics = []\<rparr>)
      \<and> map (map_option node_state) (nodes s') = [Some [7]]"
  by (simp add: run_command_def ReadByte_def exec_DynamicsCorrection_def correction_end_def
      correction_nodes_two correction_bodies_two
      correction_node_def correction_body_def correct_body_def extract_full_def
      correction_custom_def AddBlendOffset_def put_body_def put_node_def
      obind_def byte_at_def u16_at_def u32_at_def le16_def le32_def lookup_node_def node_at_def
      find_body_def apply_resync_def fetch_command_def sample_defs)

subsection \<open>A node or a body that does not exist\<close>

text \<open>
  C9, as stated, fails for a body index without a rigid body on a node that exists:
  the payload of that body is skipped, but the custom data of the entry is not; it is
  handed to the node. Node 0 exists and has no body 1; after the command its state is
  the custom data \<open>7\<close>.
\<close>

theorem custom_data_applied_despite_missing_body:
  "find_body (fetch_command no_body_cmd [] session_with_node) (Some 0) 1 = None
   \<and> map (map_option node_state) (nodes (fetch_command no_body_cmd [] session_with_node))
       = [Some []]
   \<and> run_command env0 (fetch_command no_body_cmd [] session_with_node)
       = Ok () (fetch_command no_body_cmd [] session_with_node
                 \<lparr>nodes := [Some (node0\<lparr>node_state := [7]\<rparr>)], current_cmd_ptr := 15\<rparr>)"
  by (simp add: run_command_def ReadByte_def exec_DynamicsCorrection_def correction_end_def
      correction_node_def correction_custom_def
      correction_body_def fetch_command_def obind_def byte_at_def u16_at_def u32_at_def
      le16_def le32_def lookup_node_def node_at_def find_body_def apply_resync_def
      put_node_def sample_defs)

lemma find_body_no_node [simp]: "find_body s None bodyid = None"
  by (simp add: find_body_def)

lemma correction_body_skips:
  assumes "byte_at (current_cmd s) offset = Some bodyid"
    and "u16_at (current_cmd s) (offset + 1) = Some body_data_len"
    and "offset + 3 + body_data_len \<le> length (current_cmd s)"
    and "find_body s n (unat bodyid) = None"
  shows "correction_body env blend n offset s = Ok (offset + 3 + body_data_len) s"
  using assms by (simp add: correction_body_def obind_def)

lemma correction_bodies_no_node:
  assumes "skip_bodies (current_cmd s) j offset = Some offset'"
  shows "correction_bodies env blend None j offset s = Ok offset' s"
  using assms
proof (induction j arbitrary: offset)
  case 0
  then show ?case by simp
next
  case (Suc j)
  from Suc.prems obtain len where len: "u16_at (current_cmd s) (offset + 1) = Some len"
    and fit: "offset + 3 + len \<le> length (current_cmd s)"
    and rest: "skip_bodies (current_cmd s) j (offset + 3 + len) = Some offset'"
    by (auto split: option.splits if_splits)
  from len have "offset < length (current_cmd s)"
    by (simp add: u16_at_def split: if_splits)
  then have b: "byte_at (current_cmd s) offset = Some (current_cmd s ! offset)"
    by (simp add: byte_at_def)
  have "correction_body env blend None offset s = Ok (offset + 3 + len) s"
    using b len fit by (rule correction_body_skips) simp
  then show ?case using Suc.IH [OF rest] by simp
qed

lemma correction_node_no_node:
  assumes id: "u32_at (current_cmd s) offset = Some node_id"
    and missing: "lookup_node s node_id = None"
    and skip: "skip_node_entry (current_cmd s) offset = Some offset'"
  shows "correction_node env blend offset s = Ok offset' s"
proof -
  from skip obtain body_count offset1 custom_data_len where
    bc: "byte_at (current_cmd s) (offset + 4) = Some body_count"
    and bodies: "skip_bodies (current_cmd s) (unat body_count) (offset + 5) = Some offset1"
    and cl: "u16_at (current_cmd s) offset1 = Some custom_data_len"
    and fit: "offset1 + 2 + custom_data_len \<le> length (current_cmd s)"
    and off: "offset' = offset1 + 2 + custom_data_len"
    by (auto simp: skip_node_entry_def split: option.splits if_splits)
  have b: "correction_bodies env blend None (unat body_count) (offset + 5) s = Ok offset1 s"
    using bodies by (rule correction_bodies_no_node)
  from cl have le: "offset1 + 2 \<le> length (current_cmd s)"
    by (simp add: u16_at_def split: if_splits)
  show ?thesis
    using le fit
    by (simp add: correction_node_def correction_custom_def id bc missing b cl off obind_def
        apply_resync_def)
qed

text \<open>
  The custom data of an entry whose node exists goes to the node, whatever the loop
  over the bodies of the entry did.
\<close>

lemma correction_node_custom_data:
  assumes id: "u32_at (current_cmd s) offset = Some node_id"
    and bc: "byte_at (current_cmd s) (offset + 4) = Some body_count"
    and found: "lookup_node s node_id = Some i"
    and bodies: "correction_bodies env blend (Some i) (unat body_count) (offset + 5) s
                   = Ok offset1 s1"
    and nd: "node_at s1 i = Some nd"
    and cl: "u16_at (current_cmd s1) offset1 = Some custom_data_len"
    and nz: "custom_data_len \<noteq> 0"
    and fit: "offset1 + 2 + custom_data_len \<le> length (current_cmd s1)"
  shows "correction_node env blend offset s
       = Ok (offset1 + 2 + custom_data_len)
           (put_node i
              (ApplyResyncData env nd
                 (take custom_data_len (drop (offset1 + 2) (current_cmd s1)))) s1)"
proof -
  have "correction_node env blend offset s = correction_custom env (Some i) offset1 s1"
    by (simp add: correction_node_def id bc found bodies)
  also have "\<dots> = Ok (offset1 + 2 + custom_data_len)
           (put_node i
              (ApplyResyncData env nd
                 (take custom_data_len (drop (offset1 + 2) (current_cmd s1)))) s1)"
    using fit nz by (simp add: correction_custom_def cl apply_resync_def nd)
  finally show ?thesis .
qed

text \<open>
  C9, amended. When the declared lengths stay inside the command: a node entry whose
  node id is outside the node table or names an empty slot is skipped whole, body
  payloads and custom data, by the declared lengths, without an error and without a
  change of the session, and the loop goes on with the next entry; a body entry whose
  index has no rigid body on its node is skipped by its declared payload length,
  without an error and without a change of the session, and the loop goes on with the
  next body; and the custom data of an entry whose node exists is handed to that node
  (\<open>ApplyResyncData\<close>) after the loop over the bodies of the entry, whether or not
  those bodies exist, and the entry ends behind the custom data.
\<close>

theorem missing_node_or_body_is_skipped:
  "(u32_at (current_cmd s) offset = Some node_id \<and> lookup_node s node_id = None
      \<and> skip_node_entry (current_cmd s) offset = Some offset' \<longrightarrow>
        correction_node env blend offset s = Ok offset' s
      \<and> correction_nodes env blend (Suc k) offset s = correction_nodes env blend k offset' s)
   \<and> (byte_at (current_cmd s) offset = Some bodyid
      \<and> u16_at (current_cmd s) (offset + 1) = Some body_data_len
      \<and> offset + 3 + body_data_len \<le> length (current_cmd s)
      \<and> find_body s n (unat bodyid) = None \<longrightarrow>
        correction_body env blend n offset s = Ok (offset + 3 + body_data_len) s
      \<and> correction_bodies env blend n (Suc j) offset s
          = correction_bodies env blend n j (offset + 3 + body_data_len) s)
   \<and> (u32_at (current_cmd s) offset = Some node_id
      \<and> byte_at (current_cmd s) (offset + 4) = Some body_count
      \<and> lookup_node s node_id = Some i
      \<and> correction_bodies env blend (Some i) (unat body_count) (offset + 5) s = Ok offset1 s1
      \<and> node_at s1 i = Some nd
      \<and> u16_at (current_cmd s1) offset1 = Some custom_data_len
      \<and> custom_data_len \<noteq> 0
      \<and> offset1 + 2 + custom_data_len \<le> length (current_cmd s1) \<longrightarrow>
        correction_node env blend offset s
          = Ok (offset1 + 2 + custom_data_len)
              (put_node i
                 (ApplyResyncData env nd
                    (take custom_data_len (drop (offset1 + 2) (current_cmd s1)))) s1))"
proof (intro conjI impI)
  assume a: "u32_at (current_cmd s) offset = Some node_id \<and> lookup_node s node_id = None
      \<and> skip_node_entry (current_cmd s) offset = Some offset'"
  then have "u32_at (current_cmd s) offset = Some node_id" "lookup_node s node_id = None"
    "skip_node_entry (current_cmd s) offset = Some offset'" by blast+
  then show n: "correction_node env blend offset s = Ok offset' s"
    by (rule correction_node_no_node)
  then show "correction_nodes env blend (Suc k) offset s = correction_nodes env blend k offset' s"
    by simp
next
  assume a: "byte_at (current_cmd s) offset = Some bodyid
      \<and> u16_at (current_cmd s) (offset + 1) = Some body_data_len
      \<and> offset + 3 + body_data_len \<le> length (current_cmd s)
      \<and> find_body s n (unat bodyid) = None"
  then have "byte_at (current_cmd s) offset = Some bodyid"
    "u16_at (current_cmd s) (offset + 1) = Some body_data_len"
    "offset + 3 + body_data_len \<le> length (current_cmd s)"
    "find_body s n (unat bodyid) = None" by blast+
  then show b: "correction_body env blend n offset s = Ok (offset + 3 + body_data_len) s"
    by (rule correction_body_skips)
  then show "correction_bodies env blend n (Suc j) offset s
          = correction_bodies env blend n j (offset + 3 + body_data_len) s"
    by simp
next
  assume a: "u32_at (current_cmd s) offset = Some node_id
      \<and> byte_at (current_cmd s) (offset + 4) = Some body_count
      \<and> lookup_node s node_id = Some i
      \<and> correction_bodies env blend (Some i) (unat body_count) (offset + 5) s = Ok offset1 s1
      \<and> node_at s1 i = Some nd
      \<and> u16_at (current_cmd s1) offset1 = Some custom_data_len
      \<and> custom_data_len \<noteq> 0
      \<and> offset1 + 2 + custom_data_len \<le> length (current_cmd s1)"
  then have "u32_at (current_cmd s) offset = Some node_id"
    "byte_at (current_cmd s) (offset + 4) = Some body_count"
    "lookup_node s node_id = Some i"
    "correction_bodies env blend (Some i) (unat body_count) (offset + 5) s = Ok offset1 s1"
    "node_at s1 i = Some nd"
    "u16_at (current_cmd s1) offset1 = Some custom_data_len"
    "custom_data_len \<noteq> 0"
    "offset1 + 2 + custom_data_len \<le> length (current_cmd s1)" by blast+
  then show "correction_node env blend offset s
          = Ok (offset1 + 2 + custom_data_len)
              (put_node i
                 (ApplyResyncData env nd
                    (take custom_data_len (drop (offset1 + 2) (current_cmd s1)))) s1)"
    by (rule correction_node_custom_data)
qed

lemma two_entry_no_node:
  "u32_at (current_cmd two_entry_session) 4 = Some 3
   \<and> lookup_node two_entry_session 3 = None
   \<and> skip_node_entry (current_cmd two_entry_session) 4 = Some 17"
  by (simp add: u32_at_def le32_def lookup_node_def node_at_def skip_node_entry_def byte_at_def
      u16_at_def le16_def fetch_command_def sample_defs)

lemma two_entry_no_body:
  "byte_at (current_cmd two_entry_session) 22 = Some 1
   \<and> u16_at (current_cmd two_entry_session) (22 + 1) = Some 1
   \<and> 22 + 3 + 1 \<le> length (current_cmd two_entry_session)
   \<and> find_body two_entry_session (Some 0) (unat (1 :: u8)) = None"
  by (simp add: byte_at_def u16_at_def le16_def find_body_def node_at_def fetch_command_def
      sample_defs)

lemma two_entry_bodies_done:
  "\<exists>s1 nd. correction_bodies env0 True (Some 0) (unat (2 :: u8)) (17 + 5) two_entry_session
              = Ok 32 s1
         \<and> node_at s1 0 = Some nd
         \<and> node_state nd = []
         \<and> current_cmd s1 = two_entry_cmd"
  by (simp add: correction_bodies_two correction_body_def correct_body_def extract_full_def
      AddBlendOffset_def put_body_def put_node_def obind_def byte_at_def u16_at_def le16_def
      node_at_def find_body_def fetch_command_def sample_defs)

lemma two_entry_custom:
  "u32_at (current_cmd two_entry_session) 17 = Some 0
   \<and> byte_at (current_cmd two_entry_session) (17 + 4) = Some 2
   \<and> lookup_node two_entry_session 0 = Some 0
   \<and> u16_at two_entry_cmd 32 = Some 1
   \<and> 32 + 2 + 1 \<le> length two_entry_cmd
   \<and> take 1 (drop (32 + 2) two_entry_cmd) = [7]"
  by (simp add: byte_at_def u16_at_def u32_at_def le16_def le32_def lookup_node_def node_at_def
      fetch_command_def sample_defs)

text \<open>
  In the sample command: node 3 is outside the table of one node, and its entry, from
  offset 4, with a body payload of two bytes and one byte of custom data, is skipped
  to 17. Body 1 of node 0 does not exist, and its entry, from offset 22, with a payload
  of one byte, is skipped to 26. The custom data \<open>7\<close> of the entry of node 0 goes to
  node 0, and the entry ends at 35.
\<close>

theorem missing_node_or_body_is_skipped_witness:
  "correction_node env0 True 4 two_entry_session = Ok 17 two_entry_session
   \<and> correction_body env0 True (Some 0) 22 two_entry_session = Ok 26 two_entry_session
   \<and> (\<exists>s1 nd. correction_bodies env0 True (Some 0) 2 22 two_entry_session = Ok 32 s1
          \<and> node_at s1 0 = Some nd
          \<and> correction_node env0 True 17 two_entry_session
              = Ok 35 (put_node 0 (nd\<lparr>node_state := [7]\<rparr>) s1))"
proof -
  from two_entry_bodies_done obtain s1 nd where
    b: "correction_bodies env0 True (Some 0) (unat (2 :: u8)) (17 + 5) two_entry_session
          = Ok 32 s1"
    and nd: "node_at s1 0 = Some nd" and cmd: "current_cmd s1 = two_entry_cmd"
    by blast
  have "correction_node env0 True 17 two_entry_session
      = Ok (32 + 2 + 1)
          (put_node 0 (ApplyResyncData env0 nd (take 1 (drop (32 + 2) (current_cmd s1)))) s1)"
    using missing_node_or_body_is_skipped
      [where s = two_entry_session and offset = 17 and node_id = 0 and body_count = 2
         and i = 0 and env = env0 and blend = True and ?offset1.0 = 32 and ?s1.0 = s1
         and nd = nd and custom_data_len = 1]
      two_entry_custom b nd cmd
    by simp
  then have c: "correction_node env0 True 17 two_entry_session
      = Ok 35 (put_node 0 (nd\<lparr>node_state := [7]\<rparr>) s1)"
    using two_entry_custom cmd by (simp add: env0_def)
  have a: "correction_node env0 True 4 two_entry_session = Ok 17 two_entry_session"
    using missing_node_or_body_is_skipped
      [where s = two_entry_session and offset = 4 and node_id = 3 and offset' = 17
         and env = env0 and blend = True]
      two_entry_no_node
    by simp
  have bsk: "correction_body env0 True (Some 0) 22 two_entry_session = Ok 26 two_entry_session"
    using missing_node_or_body_is_skipped
      [where s = two_entry_session and offset = 22 and bodyid = 1 and body_data_len = 1
         and n = "Some 0" and env = env0 and blend = True]
      two_entry_no_body
    by simp
  from b nd have "correction_bodies env0 True (Some 0) 2 22 two_entry_session = Ok 32 s1"
    by simp
  with a bsk c nd show ?thesis by blast
qed

text \<open>
  The last test of the case: a correction command that is accepted has been consumed
  to its last byte, no less and no more.
\<close>

lemma DynamicsCorrection_consumes_whole_command:
  assumes "exec_DynamicsCorrection env s = Ok () s'"
  shows "current_cmd_ptr s' = length (current_cmd s')"
  using assms
  by (auto simp: exec_DynamicsCorrection_def correction_end_def obind_def
      split: option.splits outcome.splits if_splits)

section \<open>Splitting a \<open>COMMANDS\<close> envelope\<close>

text \<open>
  C7. The claim: every read of a length prefix and of a payload lies inside the
  envelope, a declared length that extends past its end fails with a session error.
  The code compares \<open>offset + size\<close>, not \<open>offset + 2 + size\<close>, with the size of
  the buffer, and reads the two bytes of the length without a check. In the envelope
  \<open>[COMMANDS, 2, 0, 9]\<close> the sub-record declares two bytes and one is there: the
  check passes and two bytes are copied from offset 3. In the envelope \<open>[COMMANDS]\<close>
  the length is read at offsets 1 and 2.
\<close>

theorem COMMANDS_envelope_reads_past_the_end:
  "HandleSessionMessage env0 [1, 2, 0, 9] session0 = OutOfBounds
   \<and> HandleSessionMessage env0 [1] session0 = OutOfBounds"
  by (simp add: HandleSessionMessage_def split_commands.simps u16_at_def le16_def env0_def)

text \<open>
  What the loop does right: an envelope made of one or more well-formed sub-records is
  split into exactly those commands, each passed once to \<open>AddCommand\<close>, in order.
\<close>

lemma unat_low_byte: "unat (of_nat (n mod 256) :: u8) = n mod 256"
  by (simp add: unat_of_nat take_bit_eq_mod)

lemma unat_high_byte: "n < 65536 \<Longrightarrow> unat (of_nat (n div 256) :: u8) = n div 256"
  by (simp add: unat_of_nat take_bit_eq_mod)

lemma length_sub_record [simp]: "length (sub_record c) = 2 + length c"
  by (simp add: sub_record_def)

lemma drop_sub_record [simp]: "drop 2 (sub_record c) = c"
  by (simp add: sub_record_def)

lemma u16_at_sub_record:
  assumes "length c < 65536"
  shows "u16_at (pre @ sub_record c @ rest) (length pre) = Some (length c)"
proof -
  let ?b = "pre @ sub_record c @ rest"
  have "?b ! length pre = of_nat (length c mod 256)"
    by (simp add: sub_record_def nth_append)
  moreover have "?b ! (length pre + 1) = of_nat (length c div 256)"
    by (simp add: sub_record_def nth_append)
  ultimately have "le16 ?b (length pre) = length c mod 256 + 256 * (length c div 256)"
    using assms by (simp only: le16_def unat_low_byte unat_high_byte)
  then show ?thesis by (simp add: u16_at_def)
qed

lemma sub_records_empty_iff: "sub_records cs = [] \<longleftrightarrow> cs = []"
  by (cases cs) (simp_all add: sub_records_def sub_record_def)

lemma split_commands_well_formed:
  assumes "cs \<noteq> []" "\<forall>c\<in>set cs. length c < 65536"
  shows "split_commands env (pre @ sub_records cs) (length pre) s = AddCommands env cs s"
  using assms
proof (induction cs arbitrary: pre s)
  case Nil
  then show ?case by simp
next
  case (Cons c cs)
  let ?rest = "sub_records cs"
  let ?b = "pre @ sub_record c @ ?rest"
  have b: "pre @ sub_records (c # cs) = ?b" by (simp add: sub_records_def)
  from Cons.prems have len: "length c < 65536" by simp
  have rd: "u16_at ?b (length pre) = Some (length c)"
    using len by (rule u16_at_sub_record)
  have payload: "take (length c) (drop (length pre + 2) ?b) = c"
    by (simp add: sub_record_def)
  have unfold: "split_commands env ?b (length pre) s
      = (case AddCommand env c s of
           OutOfBounds \<Rightarrow> OutOfBounds
         | Throw e s' \<Rightarrow> Throw e s'
         | Ok _ s' \<Rightarrow>
             if cs = [] then Ok () s'
             else split_commands env ?b (length pre + 2 + length c) s')"
    by (subst split_commands.simps)
      (auto simp: rd sub_records_empty_iff split: outcome.splits)
  have rec: "split_commands env ?b (length pre + 2 + length c) s' = AddCommands env cs s'"
    if "cs \<noteq> []" for s'
  proof -
    have "split_commands env ((pre @ sub_record c) @ sub_records cs)
            (length (pre @ sub_record c)) s' = AddCommands env cs s'"
      using that Cons.prems(2) by (intro Cons.IH) simp_all
    then show ?thesis by simp
  qed
  show ?case
    unfolding b unfold using rec
    by (cases "AddCommand env c s") (auto simp: obind_def)
qed

lemma HandleSessionMessage_well_formed:
  assumes "cs \<noteq> []" "\<forall>c\<in>set cs. length c < 65536"
    and "MESSAGE_SESSION_COMMANDS env \<noteq> MESSAGE_SESSION_RESET env"
  shows "HandleSessionMessage env (MESSAGE_SESSION_COMMANDS env # sub_records cs) s
       = AddCommands env cs s"
  using split_commands_well_formed [OF assms(1,2), of env "[MESSAGE_SESSION_COMMANDS env]" s]
    assms(3)
  by (simp add: HandleSessionMessage_def)

end
